theory Spec2Isabelle
  imports Complex_Main
begin

section \<open>Rate limiting for the Mimecast API client\<close>

text \<open>
  A shallow embedding of \<^verbatim>\<open>src/mimecast_sdk/rate_limiting.py\<close>: the class
  \<^verbatim>\<open>RateLimitHandler\<close> with its constructor, \<^verbatim>\<open>_get_endpoint_key\<close>,
  \<^verbatim>\<open>_update_rate_limits\<close>, \<^verbatim>\<open>_calculate_backoff\<close>, \<^verbatim>\<open>_should_retry\<close> and
  \<^verbatim>\<open>handle_request\<close>.

  Conventions of the model.
  \<^item> Python's \<^verbatim>\<open>float\<close> values (backoff times, waits, the clock) are real numbers; the
    rounding of floating point is not modelled, the exceptions that floats and clocks
    bring are. \<^verbatim>\<open>int\<close> values are unbounded integers.
  \<^item> The library functions behave as in CPython 3.11 on 64-bit Linux, with UTC as local
    time. The clock is a time that \<^verbatim>\<open>datetime.now()\<close> can represent.
  \<^item> The four constructor arguments are immutable after construction and form the record
    \<open>config\<close>; everything that changes (the dictionary \<^verbatim>\<open>_rate_limits\<close>, the clock, the log
    of \<^verbatim>\<open>time.sleep\<close> calls, the number of transport calls and of random draws) is in the
    record \<open>state\<close>, which every operation takes and returns.
  \<^item> Exceptions are values of \<open>py_error\<close>; a computation that may raise returns
    \<open>py_error + 'a\<close>, the error on the left.
  \<^item> The lock \<^verbatim>\<open>_lock\<close> and the logger have no counterpart: the model is sequential.
\<close>

subsection \<open>Exceptions\<close>

text \<open>
  The two \<^verbatim>\<open>RateLimitExceeded\<close> messages of \<^verbatim>\<open>handle_request\<close>, with the values that are
  formatted into them: \<^verbatim>\<open>"Rate limit exceeded for {endpoint} after {max_retries} retries"\<close>,
  raised inside the loop, and \<^verbatim>\<open>"Max retries ({max_retries}) exceeded for {endpoint}"\<close>,
  raised after it.
\<close>

datatype rle_message =
  Exceeded_after_retries string int
| Max_retries_exceeded int string

text \<open>
  \<open>RequestException\<close> stands for \<^verbatim>\<open>requests.exceptions.RequestException\<close> and its
  subclasses, identified by a message; \<open>OtherException\<close> for an exception of any other
  class that the transport raises, identified by a name. \<open>ValueError\<close> is raised by
  \<^verbatim>\<open>int\<close>, \<^verbatim>\<open>datetime.fromtimestamp\<close> and \<^verbatim>\<open>time.sleep\<close>; \<open>OverflowError\<close> by
  \<^verbatim>\<open>datetime.fromtimestamp\<close>, \<^verbatim>\<open>time.sleep\<close> and the conversion of an \<^verbatim>\<open>int\<close> to a float;
  \<open>OSError\<close> by \<^verbatim>\<open>datetime.fromtimestamp\<close> and \<^verbatim>\<open>time.sleep\<close>.
\<close>

datatype py_error =
  ValueError
| TypeError
| OverflowError
| OSError
| RequestException string
| OtherException string
| RateLimitExceeded rle_message

subsection \<open>Configuration and the constructor\<close>

record config =
  max_retries :: int
  min_backoff :: real
  max_backoff :: real
  jitter :: bool

text \<open>One entry of \<^verbatim>\<open>_rate_limits\<close>. The two \<^verbatim>\<open>datetime\<close> values are seconds since the epoch.\<close>

record rate_info =
  limit :: int
  remaining :: int
  reset :: int
  last_updated :: real

type_synonym tracker = "string \<rightharpoonup> rate_info"

record state =
  rate_limits :: tracker
  now :: real
  calls :: nat
  draws :: nat
  sleeps :: "real list"

text \<open>
  \<^verbatim>\<open>__init__\<close> stores its four arguments and creates an empty \<^verbatim>\<open>_rate_limits\<close>. It has no
  check and no \<^verbatim>\<open>raise\<close>; the result type is a sum only so that "the constructor raises" can
  be stated. The state of the world outside the handler (clock, counters, log) is passed in.
\<close>

definition init :: "int \<Rightarrow> real \<Rightarrow> real \<Rightarrow> bool \<Rightarrow> state \<Rightarrow> py_error + (config \<times> state)" where
  "init mr minb maxb j world =
     Inr (\<lparr>max_retries = mr, min_backoff = minb, max_backoff = maxb, jitter = j\<rparr>,
          world\<lparr>rate_limits := Map.empty\<rparr>)"

subsection \<open>Endpoint keys\<close>

text \<open>
  \<^verbatim>\<open>s.split(sep)\<close> for a separator of one character: the pieces between the separators, never
  an empty list. \<open>split_from sep cur s\<close> scans \<open>s\<close> with the reversed current piece \<open>cur\<close>.
\<close>

fun split_from :: "char \<Rightarrow> string \<Rightarrow> string \<Rightarrow> string list" where
  "split_from sep cur [] = [rev cur]"
| "split_from sep cur (c # cs) =
     (if c = sep then rev cur # split_from sep [] cs else split_from sep (c # cur) cs)"

definition split :: "string \<Rightarrow> char \<Rightarrow> string list" where
  "split s sep = split_from sep [] s"

text \<open>\<^verbatim>\<open>s.rstrip('/')\<close> removes every trailing occurrence of the character.\<close>

definition rstrip :: "string \<Rightarrow> char \<Rightarrow> string" where
  "rstrip s c = rev (dropWhile (\<lambda>x. x = c) (rev s))"

text \<open>\<^verbatim>\<open>xs[-2:]\<close>: the last two elements, or all of them when there are fewer.\<close>

definition last_two :: "'a list \<Rightarrow> 'a list" where
  "last_two xs = drop (length xs - 2) xs"

text \<open>\<^verbatim>\<open>sep.join(xs)\<close>.\<close>

fun join :: "string \<Rightarrow> string list \<Rightarrow> string" where
  "join sep [] = []"
| "join sep [x] = x"
| "join sep (x # y # ys) = x @ sep @ join sep (y # ys)"

text \<open>
  \<^verbatim>\<open>base_url = url.split('?')[0].rstrip('/')\<close>, then
  \<^verbatim>\<open>'/'.join(base_url.split('/')[-2:])\<close>. The list of a split is never empty, so
  \<^verbatim>\<open>[0]\<close> cannot fail.
\<close>

definition get_endpoint_key :: "string \<Rightarrow> string" where
  "get_endpoint_key url =
     (let base_url = rstrip (hd (split url (CHR ''?''))) (CHR ''/'');
          path = join ''/'' (last_two (split base_url (CHR ''/'')))
      in path)"

subsection \<open>Responses and header parsing\<close>

text \<open>
  A response carries a status code and headers; \<^verbatim>\<open>response.headers.get(name)\<close> is a lookup
  that gives \<^verbatim>\<open>None\<close> for an absent header. The dictionary of \<^verbatim>\<open>requests\<close> is insensitive
  to case and has one value for a name; the list holds each header once, under its name
  in lower case. A header value is a string of Latin-1 characters, which is how the HTTP
  library decodes it, and what a \<open>char\<close> is here.
\<close>

record response =
  status_code :: int
  headers :: "(string \<times> string) list"

definition header_get :: "response \<Rightarrow> string \<Rightarrow> string option" where
  "header_get resp name = map_of (headers resp) name"

definition LIMIT_HEADER :: string where
  "LIMIT_HEADER = ''x-mc-rate-limit''"

definition REMAINING_HEADER :: string where
  "REMAINING_HEADER = ''x-mc-rate-limit-remaining''"

definition RESET_HEADER :: string where
  "RESET_HEADER = ''x-mc-rate-limit-reset''"

text \<open>
  Python's \<^verbatim>\<open>int(s)\<close> on a string of Latin-1 characters, as CPython 3.11 has it. White
  space around the literal is dropped: tab, line feed, vertical tab, form feed, carriage
  return, space, and the Latin-1 characters next line (0x85) and no-break space (0xA0). Then
  comes an optional sign and decimal digits \<open>0\<close> to \<open>9\<close>, with single underscores allowed
  between digits. Anything else raises \<^verbatim>\<open>ValueError\<close>, and so does a literal of more than
  4300 digits (the default of \<^verbatim>\<open>sys.get_int_max_str_digits()\<close>; sign, underscores and white
  space are not counted, leading zeros are).
\<close>

definition is_space :: "char \<Rightarrow> bool" where
  "is_space c \<longleftrightarrow> c \<in> set [CHR 0x09, CHR 0x0A, CHR 0x0B, CHR 0x0C, CHR 0x0D, CHR 0x20,
                            CHR 0x85, CHR 0xA0]"

definition is_digit :: "char \<Rightarrow> bool" where
  "is_digit c \<longleftrightarrow> (48::nat) \<le> of_char c \<and> of_char c \<le> (57::nat)"

definition digit_value :: "char \<Rightarrow> int" where
  "digit_value c = int (of_char c) - 48"

fun parse_digits :: "string \<Rightarrow> int \<Rightarrow> int option" where
  "parse_digits [] acc = Some acc"
| "parse_digits [c] acc = (if is_digit c then Some (10 * acc + digit_value c) else None)"
| "parse_digits (c # d # ds) acc =
     (if is_digit c then parse_digits (d # ds) (10 * acc + digit_value c)
      else if c = CHR ''_'' \<and> is_digit d then parse_digits ds (10 * acc + digit_value d)
      else None)"

definition parse_literal :: "string \<Rightarrow> int option" where
  "parse_literal s =
     (case s of [] \<Rightarrow> None
      | c # cs \<Rightarrow> if is_digit c then parse_digits cs (digit_value c) else None)"

definition strip :: "string \<Rightarrow> string" where
  "strip s = rev (dropWhile is_space (rev (dropWhile is_space s)))"

definition max_str_digits :: nat where
  "max_str_digits = 4300"

definition py_int :: "string \<Rightarrow> py_error + int" where
  "py_int s =
     (let t = strip s;
          r = (case t of [] \<Rightarrow> None
               | c # cs \<Rightarrow> if c = CHR ''-'' then map_option uminus (parse_literal cs)
                          else if c = CHR ''+'' then parse_literal cs
                          else parse_literal t)
      in case r of
           None \<Rightarrow> Inl ValueError
         | Some n \<Rightarrow> if max_str_digits < length (filter is_digit t) then Inl ValueError
                     else Inr n)"

text \<open>
  \<^verbatim>\<open>datetime.fromtimestamp(t)\<close> for an integer \<open>t\<close>, as CPython 3 behaves on a 64-bit Linux
  system with UTC as local time: \<^verbatim>\<open>OverflowError\<close> when \<open>t\<close> does not fit the platform's
  \<^verbatim>\<open>time_t\<close>, \<^verbatim>\<open>OSError\<close> when the C function \<^verbatim>\<open>localtime\<close> fails (the year does not fit a C
  \<^verbatim>\<open>int\<close>), \<^verbatim>\<open>ValueError\<close> when the year is outside \<^verbatim>\<open>datetime\<close>'s range, and the
  \<^verbatim>\<open>datetime\<close> otherwise (written as the timestamp itself).
\<close>

definition fromtimestamp :: "int \<Rightarrow> py_error + int" where
  "fromtimestamp t =
     (if t < - (2 ^ 63) \<or> 2 ^ 63 \<le> t then Inl OverflowError
      else if t < - 67768040609740800 \<or> 67768036191676799 < t then Inl OSError
      else if t < - 62135510400 \<or> 253402300799 < t then Inl ValueError
      else Inr t)"

text \<open>
  The truth value of \<^verbatim>\<open>headers.get(...)\<close> in \<^verbatim>\<open>all([limit, remaining, reset])\<close>: \<^verbatim>\<open>None\<close>
  and the empty string are false.
\<close>

definition truthy :: "string option \<Rightarrow> bool" where
  "truthy v = (case v of None \<Rightarrow> False | Some s \<Rightarrow> s \<noteq> [])"

text \<open>
  The dictionary display of \<^verbatim>\<open>_update_rate_limits\<close>, evaluated left to right; the first
  exception ends the evaluation and nothing has been stored at that point.
\<close>

definition new_entry :: "string \<Rightarrow> string \<Rightarrow> string \<Rightarrow> real \<Rightarrow> py_error + rate_info" where
  "new_entry l r t clock =
     (case py_int l of Inl e \<Rightarrow> Inl e
      | Inr li \<Rightarrow>
     (case py_int r of Inl e \<Rightarrow> Inl e
      | Inr ri \<Rightarrow>
     (case py_int t of Inl e \<Rightarrow> Inl e
      | Inr ti \<Rightarrow>
     (case fromtimestamp ti of Inl e \<Rightarrow> Inl e
      | Inr d \<Rightarrow> Inr \<lparr>limit = li, remaining = ri, reset = d, last_updated = clock\<rparr>))))"

text \<open>
  \<^verbatim>\<open>_update_rate_limits\<close>: the entry is stored when all three headers are true values and
  the display evaluates; \<^verbatim>\<open>except (ValueError, TypeError)\<close> turns these two exceptions
  into a logged warning, and every other exception leaves the method. (\<open>the\<close> is applied
  to a header only after \<open>truthy\<close> has found it present.)
\<close>

definition update_rate_limits :: "tracker \<Rightarrow> string \<Rightarrow> response \<Rightarrow> real \<Rightarrow> py_error + tracker" where
  "update_rate_limits rl endpoint resp clock =
     (let l = header_get resp LIMIT_HEADER;
          r = header_get resp REMAINING_HEADER;
          t = header_get resp RESET_HEADER
      in if truthy l \<and> truthy r \<and> truthy t then
           (case new_entry (the l) (the r) (the t) clock of
              Inr entry \<Rightarrow> Inr (rl(endpoint \<mapsto> entry))
            | Inl e \<Rightarrow> if e = ValueError \<or> e = TypeError then Inr rl else Inl e)
         else Inr rl)"

subsection \<open>Backoff and the pre-check\<close>

text \<open>
  \<^verbatim>\<open>2 ** retry_count\<close> for an integer exponent. For \<open>retry_count \<ge> 0\<close> it is an \<^verbatim>\<open>int\<close>; a
  negative exponent gives a float, which is 0.0 below the smallest positive float
  \<open>2 ^ -1074\<close>.
\<close>

definition pow2 :: "int \<Rightarrow> real" where
  "pow2 n = (if 0 \<le> n then 2 ^ nat n
             else if n < - 1074 then 0
             else 1 / 2 ^ nat (- n))"

text \<open>
  The conversion of an \<^verbatim>\<open>int\<close> to a float raises \<^verbatim>\<open>OverflowError\<close> (int too large to convert
  to float) when the \<^verbatim>\<open>int\<close> rounds to a float of magnitude \<open>2 ^ 1024\<close>, which is from
  \<open>2 ^ 1024 - 2 ^ 970\<close> on.
\<close>

definition float_int_bound :: int where
  "float_int_bound = 2 ^ 1024 - 2 ^ 970"

text \<open>
  \<^verbatim>\<open>_calculate_backoff\<close>; \<open>rnd\<close> is the value that \<^verbatim>\<open>random.random()\<close> returns when it is
  called, which is only with jitter. \<^verbatim>\<open>min_backoff\<close> is a float (its annotation, and its
  default 1.0), so the product \<^verbatim>\<open>self.min_backoff * (2 ** retry_count)\<close> converts the
  \<^verbatim>\<open>int\<close> power to a float, and this conversion raises \<^verbatim>\<open>OverflowError\<close> from \<open>2 ** 1024\<close>
  on, whatever \<^verbatim>\<open>min_backoff\<close> is. For a negative \<^verbatim>\<open>retry_count\<close> the power is computed on
  floats, and it is the conversion of \<^verbatim>\<open>retry_count\<close> that raises, from \<open>- float_int_bound\<close>
  down. Otherwise the product of a float with a power of two is exact, or it is infinite.
  For a product above the float range the minimum with \<^verbatim>\<open>max_backoff\<close> is the same as over
  the reals. A product below the float range is minus infinity; the model keeps the real
  product for it, which like minus infinity is below every float, and which \<^verbatim>\<open>time.sleep\<close>
  rejects like minus infinity with \<^verbatim>\<open>OverflowError\<close>.
\<close>

definition calculate_backoff :: "config \<Rightarrow> int \<Rightarrow> real \<Rightarrow> py_error + real" where
  "calculate_backoff cfg retry_count rnd =
     (if 1024 \<le> retry_count \<or> retry_count \<le> - float_int_bound then Inl OverflowError
      else
        (let backoff = min (max_backoff cfg) (min_backoff cfg * pow2 retry_count)
         in if jitter cfg then Inr (backoff * (0.5 + rnd)) else Inr backoff))"

text \<open>\<^verbatim>\<open>_should_retry\<close>, with \<open>clock\<close> the value of \<^verbatim>\<open>datetime.now()\<close>.\<close>

definition should_retry :: "tracker \<Rightarrow> string \<Rightarrow> real \<Rightarrow> bool \<times> real" where
  "should_retry rl endpoint clock =
     (case rl endpoint of
        None \<Rightarrow> (True, 0)
      | Some info \<Rightarrow>
          if remaining info > 0 then (True, 0)
          else if real_of_int (reset info) > clock
               then (let wait_time = real_of_int (reset info) - clock in (True, wait_time + 1))
               else (True, 0))"

subsection \<open>The environment: transport, random numbers, sleeping\<close>

text \<open>
  \<^verbatim>\<open>session.request(method, url, **kwargs)\<close> returns a response, or raises a
  \<^verbatim>\<open>RequestException\<close> (\<open>Raises\<close>, with its message), or raises an exception of another
  class (\<open>Crashes\<close>, with its name), as \<^verbatim>\<open>requests\<close> does for an argument it rejects. The
  session is an arbitrary function of the method, the URL and the number of calls made
  before; it stands for the session passed in as well as for the one of
  \<^verbatim>\<open>create_retry_session\<close>. \<open>random\<close> gives the successive values of \<^verbatim>\<open>random.random()\<close>.
  \<open>boot\<close> is the time at which the monotonic clock of the system was zero: the monotonic
  clock reads \<open>now s - boot e\<close>.
\<close>

datatype outcome =
  Response response
| Raises string
| Crashes string

record env =
  request :: "string \<Rightarrow> string \<Rightarrow> nat \<Rightarrow> outcome"
  random :: "nat \<Rightarrow> real"
  boot :: real

text \<open>
  \<^verbatim>\<open>time.sleep(d)\<close>, as CPython 3.11 has it on Linux. The duration is rounded away from zero
  to whole nanoseconds, and \<^verbatim>\<open>OverflowError\<close> is raised when these do not fit 64 bits. A
  negative duration raises \<^verbatim>\<open>ValueError\<close>. The sleep is a \<^verbatim>\<open>clock_nanosleep\<close> until a
  deadline on the monotonic clock, which the kernel refuses (\<^verbatim>\<open>OSError\<close>, invalid argument)
  when the deadline is \<open>KTIME_SEC_MAX\<close> seconds or later. Otherwise the clock advances by
  \<open>d\<close> and the completed sleep is logged. Time passes in no other way.
\<close>

definition KTIME_SEC_MAX :: real where
  "KTIME_SEC_MAX = 9223372036"

definition sleep :: "env \<Rightarrow> real \<Rightarrow> state \<Rightarrow> py_error + state" where
  "sleep e d s =
     (if 2 ^ 63 - 1 < d * 10 ^ 9 \<or> d * 10 ^ 9 < - (2 ^ 63) then Inl OverflowError
      else if d < 0 then Inl ValueError
      else if KTIME_SEC_MAX \<le> (now s - boot e) + d then Inl OSError
      else Inr (s\<lparr>now := now s + d, sleeps := sleeps s @ [d]\<rparr>))"

subsection \<open>The retry loop\<close>

text \<open>How one pass through the body of the \<^verbatim>\<open>while\<close> loop of \<^verbatim>\<open>handle_request\<close> ends.\<close>

datatype step =
  Return response state
| Raise py_error state
| Continue int state

text \<open>
  The pre-check at the head of the loop body: \<^verbatim>\<open>_should_retry\<close>, and a \<^verbatim>\<open>time.sleep\<close> when
  the wait is positive.
\<close>

definition precheck :: "env \<Rightarrow> string \<Rightarrow> state \<Rightarrow> py_error + state" where
  "precheck e endpoint s =
     (case should_retry (rate_limits s) endpoint (now s) of
        (retry, wait_time) \<Rightarrow>
          if retry \<and> wait_time > 0 then sleep e wait_time s else Inr s)"

text \<open>
  The three lines that both retry branches share: \<^verbatim>\<open>_calculate_backoff(retry_count)\<close>, which
  draws a random number with jitter, the \<^verbatim>\<open>time.sleep(backoff)\<close>, and the next pass of the
  loop (\<^verbatim>\<open>continue\<close> in the first branch, the end of the \<^verbatim>\<open>except\<close> block in the second).
  An exception of \<^verbatim>\<open>_calculate_backoff\<close> comes before the random number is drawn.
\<close>

definition backoff_sleep :: "config \<Rightarrow> env \<Rightarrow> int \<Rightarrow> state \<Rightarrow> step" where
  "backoff_sleep cfg e retry_count s =
     (case calculate_backoff cfg retry_count (random e (draws s)) of
        Inl err \<Rightarrow> Raise err s
      | Inr backoff \<Rightarrow>
          (let s1 = (if jitter cfg then s\<lparr>draws := draws s + 1\<rparr> else s)
           in case sleep e backoff s1 of
                Inl err \<Rightarrow> Raise err s1
              | Inr s2 \<Rightarrow> Continue retry_count s2))"

text \<open>
  The body of the loop. Only a \<^verbatim>\<open>RequestException\<close> from \<^verbatim>\<open>session.request\<close> is caught by
  the \<^verbatim>\<open>except\<close> clause; an exception of another class from \<^verbatim>\<open>session.request\<close>, and the
  exceptions of the other statements of the \<^verbatim>\<open>try\<close> block (\<^verbatim>\<open>_update_rate_limits\<close>, the
  \<^verbatim>\<open>raise RateLimitExceeded\<close>, \<^verbatim>\<open>_calculate_backoff\<close>, \<^verbatim>\<open>time.sleep\<close>) leave
  \<^verbatim>\<open>handle_request\<close>, as do those of the pre-check, which is outside the \<^verbatim>\<open>try\<close>.
\<close>

definition body :: "config \<Rightarrow> env \<Rightarrow> string \<Rightarrow> string \<Rightarrow> string \<Rightarrow> int \<Rightarrow> state \<Rightarrow> step" where
  "body cfg e method url endpoint retry_count s =
     (case precheck e endpoint s of
        Inl err \<Rightarrow> Raise err s
      | Inr s1 \<Rightarrow>
          (let s2 = s1\<lparr>calls := calls s1 + 1\<rparr> in
           case request e method url (calls s1) of
             Response resp \<Rightarrow>
               (case update_rate_limits (rate_limits s2) endpoint resp (now s2) of
                  Inl err \<Rightarrow> Raise err s2
                | Inr rl \<Rightarrow>
                    (let s3 = s2\<lparr>rate_limits := rl\<rparr> in
                     if status_code resp = 429 then
                       (let retry_count1 = retry_count + 1 in
                        if retry_count1 > max_retries cfg
                        then Raise (RateLimitExceeded
                                      (Exceeded_after_retries endpoint (max_retries cfg))) s3
                        else backoff_sleep cfg e retry_count1 s3)
                     else Return resp s3))
           | Raises msg \<Rightarrow>
               (let retry_count1 = retry_count + 1 in
                if retry_count1 > max_retries cfg
                then Raise (RequestException msg) s2
                else backoff_sleep cfg e retry_count1 s2)
           | Crashes name \<Rightarrow> Raise (OtherException name) s2))"

text \<open>
  \<^verbatim>\<open>while retry_count <= self.max_retries\<close>, and the \<^verbatim>\<open>raise\<close> after the loop.
\<close>

function handle_loop ::
  "config \<Rightarrow> env \<Rightarrow> string \<Rightarrow> string \<Rightarrow> string \<Rightarrow> int \<Rightarrow> state \<Rightarrow> (py_error + response) \<times> state"
where
  "handle_loop cfg e method url endpoint retry_count s =
     (if retry_count \<le> max_retries cfg then
        (case body cfg e method url endpoint retry_count s of
           Return resp s1 \<Rightarrow> (Inr resp, s1)
         | Raise err s1 \<Rightarrow> (Inl err, s1)
         | Continue retry_count1 s1 \<Rightarrow> handle_loop cfg e method url endpoint retry_count1 s1)
      else (Inl (RateLimitExceeded (Max_retries_exceeded (max_retries cfg) endpoint)), s))"
  by pat_completeness auto
termination
proof (relation "measure (\<lambda>(cfg, e, method, url, endpoint, retry_count, s).
                    nat (max_retries cfg + 1 - retry_count))")
  show "wf (measure (\<lambda>(cfg, e, method, url, endpoint, retry_count, s).
                    nat (max_retries cfg + 1 - retry_count)))"
    by simp
next
  fix cfg :: config and e :: env and m u ep :: string
    and retry_count retry_count1 :: int and s s1 :: state
  assume le: "retry_count \<le> max_retries cfg"
    and c: "body cfg e m u ep retry_count s = Continue retry_count1 s1"
  from c have "retry_count1 = retry_count + 1"
    by (auto simp: body_def backoff_sleep_def Let_def
             split: sum.splits outcome.splits if_splits)
  with le show "((cfg, e, m, u, ep, retry_count1, s1),
                 (cfg, e, m, u, ep, retry_count, s))
                \<in> measure (\<lambda>(cfg, e, method, url, endpoint, retry_count, s).
                    nat (max_retries cfg + 1 - retry_count))"
    by simp
qed

text \<open>
  \<^verbatim>\<open>handle_request\<close>: the endpoint key, \<^verbatim>\<open>retry_count = 0\<close>, and the loop. The choice
  \<^verbatim>\<open>session or self.create_retry_session()\<close> is the choice of \<open>request e\<close>.
\<close>

definition handle_request ::
  "config \<Rightarrow> env \<Rightarrow> string \<Rightarrow> string \<Rightarrow> state \<Rightarrow> (py_error + response) \<times> state"
where
  "handle_request cfg e method url s =
     (let endpoint = get_endpoint_key url;
          retry_count = 0
      in handle_loop cfg e method url endpoint retry_count s)"

subsection \<open>Notions used in the properties\<close>

text \<open>
  Whether \<^verbatim>\<open>_update_rate_limits\<close> raises on a response. This depends on the headers of the
  response only, not on the tracker, the endpoint or the clock (lemma
  \<open>update_raises_iff\<close>), so it is tested on the empty tracker.
\<close>

definition header_update_raises :: "response \<Rightarrow> bool" where
  "header_update_raises resp = isl (update_rate_limits Map.empty [] resp 0)"

text \<open>
  The snapshot of an endpoint, if there is one, resets at \<open>h\<close> at the latest; and: the
  update accepts the headers of a response, and a snapshot that it stores from them
  resets at \<open>h\<close> at the latest.
\<close>

definition reset_within :: "real \<Rightarrow> tracker \<Rightarrow> string \<Rightarrow> bool" where
  "reset_within h rl endpoint =
     (case rl endpoint of None \<Rightarrow> True | Some info \<Rightarrow> real_of_int (reset info) \<le> h)"

definition headers_within :: "real \<Rightarrow> response \<Rightarrow> bool" where
  "headers_within h resp =
     (case update_rate_limits Map.empty [] resp 0 of
        Inl err \<Rightarrow> False
      | Inr rl \<Rightarrow> reset_within h rl [])"

text \<open>
  A call of \<^verbatim>\<open>handle_request\<close> in which no library function can fail. The backoff bounds
  are not negative, there are fewer than 1024 retries, and all backoff waits together stay
  below \<open>1.5 * 10 ^ 9\<close> seconds; the random source stays in the range of
  \<^verbatim>\<open>random.random()\<close>; the monotonic clock reads between 0 and \<open>10 ^ 9\<close> seconds; the snapshot
  of the endpoint resets no later than \<open>10 ^ 9\<close> seconds after the start of the call; and
  every response has headers that the update accepts, with a reset time in the same range.
\<close>

definition calm :: "config \<Rightarrow> env \<Rightarrow> string \<Rightarrow> string \<Rightarrow> state \<Rightarrow> bool" where
  "calm cfg e method url s \<longleftrightarrow>
     0 \<le> min_backoff cfg \<and> 0 \<le> max_backoff cfg \<and> max_retries cfg < 1024
     \<and> real_of_int (max_retries cfg) * max_backoff cfg \<le> 10 ^ 9
     \<and> (\<forall>i. 0 \<le> random e i \<and> random e i < 1)
     \<and> boot e \<le> now s \<and> now s \<le> boot e + 10 ^ 9
     \<and> reset_within (now s + 10 ^ 9) (rate_limits s) (get_endpoint_key url)
     \<and> (\<forall>i resp. request e method url i = Response resp \<longrightarrow> headers_within (now s + 10 ^ 9) resp)"

text \<open>
  The two parts of \<open>calm\<close> as the loop keeps them. \<open>calm_env\<close> is what does not change
  during a call, with \<open>start\<close> the clock at the start of the call. \<open>calm_inv\<close> is what holds
  at the head of every pass: after \<open>retry_count\<close> retries the clock has advanced by one
  pre-check wait and \<open>retry_count\<close> backoff waits at most, and the snapshot of the endpoint
  resets no later than \<open>10 ^ 9\<close> seconds after the start.
\<close>

definition calm_env :: "config \<Rightarrow> env \<Rightarrow> string \<Rightarrow> string \<Rightarrow> real \<Rightarrow> bool" where
  "calm_env cfg e method url start \<longleftrightarrow>
     0 \<le> min_backoff cfg \<and> 0 \<le> max_backoff cfg \<and> max_retries cfg < 1024
     \<and> real_of_int (max_retries cfg) * max_backoff cfg \<le> 10 ^ 9
     \<and> (\<forall>i. 0 \<le> random e i \<and> random e i < 1)
     \<and> boot e \<le> start \<and> start \<le> boot e + 10 ^ 9
     \<and> (\<forall>i resp. request e method url i = Response resp \<longrightarrow> headers_within (start + 10 ^ 9) resp)"

definition calm_inv :: "config \<Rightarrow> real \<Rightarrow> string \<Rightarrow> int \<Rightarrow> state \<Rightarrow> bool" where
  "calm_inv cfg start endpoint retry_count s \<longleftrightarrow>
     0 \<le> retry_count \<and> start \<le> now s
     \<and> now s \<le> start + 10 ^ 9 + 1 + real_of_int retry_count * (3 / 2 * max_backoff cfg)
     \<and> reset_within (start + 10 ^ 9) (rate_limits s) endpoint"

text \<open>The largest finite float.\<close>

definition float_max :: real where
  "float_max = (2 ^ 53 - 1) * 2 ^ 971"

text \<open>The two kinds of outcome that the loop retries.\<close>

definition is_throttled :: "outcome \<Rightarrow> bool" where
  "is_throttled out =
     (case out of Response resp \<Rightarrow> status_code resp = 429 | Raises msg \<Rightarrow> False
      | Crashes name \<Rightarrow> False)"

definition is_transient :: "outcome \<Rightarrow> bool" where
  "is_transient out =
     (case out of Response resp \<Rightarrow> False | Raises msg \<Rightarrow> True | Crashes name \<Rightarrow> False)"

text \<open>How many of the transport calls number \<open>a\<close> to \<open>b - 1\<close> were of each kind.\<close>

definition throttled_responses :: "env \<Rightarrow> string \<Rightarrow> string \<Rightarrow> nat \<Rightarrow> nat \<Rightarrow> nat" where
  "throttled_responses e method url a b =
     length (filter (\<lambda>i. is_throttled (request e method url i)) [a..<b])"

definition transient_failures :: "env \<Rightarrow> string \<Rightarrow> string \<Rightarrow> nat \<Rightarrow> nat \<Rightarrow> nat" where
  "transient_failures e method url a b =
     length (filter (\<lambda>i. is_transient (request e method url i)) [a..<b])"

subsection \<open>Inputs for the examples\<close>

text \<open>
  A fresh world, a response without headers, and a session that plays a list of outcomes
  and then repeats a last one (as a mock with \<^verbatim>\<open>side_effect\<close> and \<^verbatim>\<open>return_value\<close>), on a
  system whose monotonic clock is the clock of the world.
\<close>

definition world0 :: state where
  "world0 = \<lparr>rate_limits = Map.empty, now = 0, calls = 0, draws = 0, sleeps = []\<rparr>"

definition plain :: "int \<Rightarrow> response" where
  "plain code = \<lparr>status_code = code, headers = []\<rparr>"

definition scripted :: "outcome list \<Rightarrow> outcome \<Rightarrow> env" where
  "scripted outs rest =
     \<lparr>request = (\<lambda>method url i. if i < length outs then outs ! i else rest),
      random = (\<lambda>i. 0),
      boot = 0\<rparr>"

text \<open>
  A 429 response with the three rate limit headers: a limit of 100, nothing remaining, and
  a reset at second 60.
\<close>

definition throttled60 :: response where
  "throttled60 = \<lparr>status_code = 429,
      headers = [(''x-mc-rate-limit'', ''100''), (''x-mc-rate-limit-remaining'', ''0''),
                 (''x-mc-rate-limit-reset'', ''60'')]\<rparr>"

declare handle_loop.simps [simp del]

section \<open>Properties\<close>

subsection \<open>The backoff schedule\<close>

lemma pow2_mono: "0 \<le> n \<Longrightarrow> pow2 n \<le> pow2 (n + 1)"
  by (simp add: pow2_def nat_add_distrib)

lemma pow2_nonneg: "0 \<le> pow2 n"
  by (simp add: pow2_def)

lemma float_int_bound_pos: "0 < float_int_bound"
  by (simp add: float_int_bound_def)

lemma above_float_int_bound: "0 \<le> n \<Longrightarrow> \<not> n \<le> - float_int_bound"
  using float_int_bound_pos by simp

lemma below_float_int_bound: "n \<le> 0 \<Longrightarrow> \<not> float_int_bound \<le> n"
  using float_int_bound_pos by simp

text \<open>
  The schedule without jitter, where the code computes it: for every attempt number \<open>n\<close>
  from 0 to 1023 for which the product \<open>minBackoff * 2^n\<close> is not below the range of floats
  (where the float product is minus infinity), the backoff is
  \<open>min(maxBackoff, minBackoff * 2^n)\<close> and does not depend on the random source; and for
  non-negative \<open>minBackoff\<close> and \<open>maxBackoff\<close> it is monotone as long as both attempt numbers
  are below 1024: the delay of \<open>n\<close> is at most the delay of \<open>n + 1\<close>.
\<close>

lemma backoff_without_jitter:
  "\<not> jitter cfg \<and> 0 \<le> n \<and> n < 1024 \<and> - float_max \<le> min_backoff cfg * 2 ^ nat n \<longrightarrow>
      calculate_backoff cfg n rnd = Inr (min (max_backoff cfg) (min_backoff cfg * 2 ^ nat n))
      \<and> calculate_backoff cfg n rnd = calculate_backoff cfg n rnd'
      \<and> (0 \<le> min_backoff cfg \<and> 0 \<le> max_backoff cfg \<and> n + 1 < 1024 \<longrightarrow>
           (\<exists>d d'. calculate_backoff cfg n rnd = Inr d
                \<and> calculate_backoff cfg (n + 1) rnd' = Inr d' \<and> d \<le> d'))"
proof (intro impI conjI)
  assume a: "\<not> jitter cfg \<and> 0 \<le> n \<and> n < 1024 \<and> - float_max \<le> min_backoff cfg * 2 ^ nat n"
  then show "calculate_backoff cfg n rnd = Inr (min (max_backoff cfg) (min_backoff cfg * 2 ^ nat n))"
    by (simp add: calculate_backoff_def pow2_def above_float_int_bound)
  from a show "calculate_backoff cfg n rnd = calculate_backoff cfg n rnd'"
    by (simp add: calculate_backoff_def above_float_int_bound)
  assume b: "0 \<le> min_backoff cfg \<and> 0 \<le> max_backoff cfg \<and> n + 1 < 1024"
  from a have "pow2 n \<le> pow2 (n + 1)" by (simp add: pow2_mono)
  with b have "min_backoff cfg * pow2 n \<le> min_backoff cfg * pow2 (n + 1)"
    by (simp add: mult_left_mono)
  then have "min (max_backoff cfg) (min_backoff cfg * pow2 n)
             \<le> min (max_backoff cfg) (min_backoff cfg * pow2 (n + 1))"
    by (simp add: min_le_iff_disj)
  with a b show "\<exists>d d'. calculate_backoff cfg n rnd = Inr d
                \<and> calculate_backoff cfg (n + 1) rnd' = Inr d' \<and> d \<le> d'"
    by (simp add: calculate_backoff_def above_float_int_bound)
qed

lemma backoff_schedule_example:
  "calculate_backoff \<lparr>max_retries = 3, min_backoff = 1, max_backoff = 60, jitter = False\<rparr> 6 0 = Inr 60
   \<and> calculate_backoff \<lparr>max_retries = 3, min_backoff = 1, max_backoff = 60, jitter = False\<rparr> 5 0
     = Inr 32
   \<and> (\<exists>d d'. calculate_backoff \<lparr>max_retries = 3, min_backoff = 1, max_backoff = 60, jitter = False\<rparr> 5 0
               = Inr d
        \<and> calculate_backoff \<lparr>max_retries = 3, min_backoff = 1, max_backoff = 60, jitter = False\<rparr>
               (5 + 1) (1 / 2) = Inr d'
        \<and> d \<le> d')"
proof -
  let ?cfg = "\<lparr>max_retries = 3, min_backoff = 1, max_backoff = 60, jitter = False\<rparr>"
  have f: "0 \<le> float_max" by (simp add: float_max_def)
  have h6: "\<not> jitter ?cfg \<and> (0::int) \<le> 6 \<and> (6::int) < 1024
            \<and> - float_max \<le> min_backoff ?cfg * 2 ^ nat 6"
    using f by simp
  have h5: "\<not> jitter ?cfg \<and> (0::int) \<le> 5 \<and> (5::int) < 1024
            \<and> - float_max \<le> min_backoff ?cfg * 2 ^ nat 5"
    using f by simp
  have m: "0 \<le> min_backoff ?cfg \<and> 0 \<le> max_backoff ?cfg \<and> (5::int) + 1 < 1024" by simp
  from backoff_without_jitter [of ?cfg 6 0 0] h6
  have a: "calculate_backoff ?cfg 6 0 = Inr 60" by simp
  from backoff_without_jitter [of ?cfg 5 0 "1 / 2"] h5
  have b: "calculate_backoff ?cfg 5 0 = Inr 32" by simp
  from backoff_without_jitter [of ?cfg 5 0 "1 / 2"] h5 m
  have c: "\<exists>d d'. calculate_backoff ?cfg 5 0 = Inr d
            \<and> calculate_backoff ?cfg (5 + 1) (1 / 2) = Inr d' \<and> d \<le> d'"
    by blast
  from a b c show ?thesis by blast
qed

subsection \<open>The pre-check decision\<close>

text \<open>
  C6. For every tracker state, endpoint key and clock value, \<^verbatim>\<open>_should_retry\<close> returns
  \<open>(True, 0)\<close> when the endpoint has no snapshot or the snapshot's \<open>remaining\<close> is positive;
  \<open>(True, (reset - now) + 1)\<close> when \<open>remaining\<close> is 0 and \<open>reset\<close> is strictly in the future;
  and \<open>(True, 0)\<close> when \<open>remaining\<close> is 0 and \<open>reset\<close> has passed.
\<close>

theorem should_retry_decision:
  "(rl endpoint = None \<longrightarrow> should_retry rl endpoint clock = (True, 0))
   \<and> (\<forall>info. rl endpoint = Some info \<longrightarrow>
        (remaining info > 0 \<longrightarrow> should_retry rl endpoint clock = (True, 0))
        \<and> (remaining info = 0 \<and> real_of_int (reset info) > clock \<longrightarrow>
             should_retry rl endpoint clock = (True, (real_of_int (reset info) - clock) + 1))
        \<and> (remaining info = 0 \<and> real_of_int (reset info) \<le> clock \<longrightarrow>
             should_retry rl endpoint clock = (True, 0)))"
  by (simp add: should_retry_def)

theorem should_retry_decision_witness:
  "should_retry Map.empty ''v2/test'' 1000 = (True, 0)
   \<and> should_retry [''v2/test'' \<mapsto> \<lparr>limit = 100, remaining = 7, reset = 1005, last_updated = 990\<rparr>]
        ''v2/test'' 1000 = (True, 0)
   \<and> should_retry [''v2/test'' \<mapsto> \<lparr>limit = 100, remaining = 0, reset = 1005, last_updated = 990\<rparr>]
        ''v2/test'' 1000 = (True, 6)
   \<and> should_retry [''v2/test'' \<mapsto> \<lparr>limit = 100, remaining = 0, reset = 995, last_updated = 990\<rparr>]
        ''v2/test'' 1000 = (True, 0)"
  using should_retry_decision [of Map.empty "''v2/test''" 1000]
    should_retry_decision [of "[''v2/test'' \<mapsto> \<lparr>limit = 100, remaining = 7, reset = 1005, last_updated = 990\<rparr>]" "''v2/test''" 1000]
    should_retry_decision [of "[''v2/test'' \<mapsto> \<lparr>limit = 100, remaining = 0, reset = 1005, last_updated = 990\<rparr>]" "''v2/test''" 1000]
    should_retry_decision [of "[''v2/test'' \<mapsto> \<lparr>limit = 100, remaining = 0, reset = 995, last_updated = 990\<rparr>]" "''v2/test''" 1000]
  by simp

subsection \<open>Endpoint keys\<close>

lemma split_from_no_sep: "sep \<notin> set xs \<Longrightarrow> split_from sep cur xs = [rev cur @ xs]"
  by (induction xs arbitrary: cur) auto

lemma split_from_append_sep:
  "split_from sep cur (xs @ sep # ys) = split_from sep cur xs @ split_from sep [] ys"
  by (induction xs arbitrary: cur) auto

lemma split_no_sep: "sep \<notin> set xs \<Longrightarrow> split xs sep = [xs]"
  by (simp add: Spec2Isabelle.split_def split_from_no_sep)

lemma split_append_sep: "split (xs @ sep # ys) sep = split xs sep @ split ys sep"
  by (simp add: Spec2Isabelle.split_def split_from_append_sep)

lemma hd_split_query:
  assumes "CHR ''?'' \<notin> set xs" and "q = [] \<or> hd q = CHR ''?''"
  shows "hd (split (xs @ q) (CHR ''?'')) = xs"
proof (cases q)
  case Nil
  with assms show ?thesis by (simp add: split_no_sep)
next
  case (Cons c cs)
  with assms have "q = CHR ''?'' # cs" by simp
  with assms show ?thesis by (simp add: split_append_sep split_no_sep)
qed

lemma dropWhile_replicate_Cons:
  "y \<noteq> c \<Longrightarrow> dropWhile (\<lambda>x. x = c) (replicate k c @ y # ys) = y # ys"
  by (induction k) auto

lemma rstrip_trailing:
  assumes "b \<noteq> []" and "c \<notin> set b"
  shows "rstrip (xs @ b @ replicate k c) c = xs @ b"
proof -
  from assms have ne: "last b \<noteq> c"
    using last_in_set by fastforce
  have "rev b = last b # rev (butlast b)"
    using assms(1) by (metis append_butlast_last_id rev.simps(2) rev_rev_ident rev_swap)
  then have r: "rev (xs @ b @ replicate k c) = replicate k c @ last b # rev (butlast b) @ rev xs"
    by simp
  have d: "dropWhile (\<lambda>x. x = c) (replicate k c @ last b # rev (butlast b) @ rev xs)
           = last b # rev (butlast b) @ rev xs"
    using ne by (rule dropWhile_replicate_Cons)
  show ?thesis
    unfolding rstrip_def r d using assms(1) by simp
qed

lemma last_two_append: "last_two (xs @ [a, b]) = [a, b]"
  by (simp add: last_two_def)

lemma endpoint_key_of_url:
  assumes "CHR ''?'' \<notin> set p" and "CHR ''?'' \<notin> set a" and "CHR ''?'' \<notin> set b"
    and "CHR ''/'' \<notin> set a" and "CHR ''/'' \<notin> set b" and "b \<noteq> []"
    and "q = [] \<or> hd q = CHR ''?''"
  shows "get_endpoint_key (p @ ''/'' @ a @ ''/'' @ b @ replicate k (CHR ''/'') @ q) = a @ ''/'' @ b"
proof -
  let ?base = "p @ ''/'' @ a @ ''/'' @ b @ replicate k (CHR ''/'')"
  have "CHR ''?'' \<notin> set ?base" using assms by auto
  then have h: "hd (split (?base @ q) (CHR ''?'')) = ?base"
    using assms(7) by (rule hd_split_query)
  have r: "rstrip ((p @ ''/'' @ a @ ''/'') @ b @ replicate k (CHR ''/'')) (CHR ''/'')
           = (p @ ''/'' @ a @ ''/'') @ b"
    using assms(6,5) by (rule rstrip_trailing)
  have s: "split (p @ CHR ''/'' # a @ CHR ''/'' # b) (CHR ''/'') = split p (CHR ''/'') @ [a, b]"
    using assms(4,5) by (simp add: split_append_sep split_no_sep)
  show ?thesis
    using h r s by (simp add: get_endpoint_key_def last_two_append)
qed

text \<open>
  C9. The endpoint key of a URL is what remains of it after the query string (from the
  first \<open>?\<close>) and all trailing slashes are removed, cut down to its last two segments
  between slashes. So two URLs \<open>p1/a/b\<close> and \<open>p2/a/b\<close> (each possibly followed by slashes and
  a query string) that differ only in what comes before the final two segments \<open>a\<close> and \<open>b\<close>
  have the same key \<open>a/b\<close>, and share one entry of the tracker.
\<close>

theorem endpoint_key_shared:
  assumes "CHR ''?'' \<notin> set a" and "CHR ''?'' \<notin> set b"
    and "CHR ''/'' \<notin> set a" and "CHR ''/'' \<notin> set b" and "b \<noteq> []"
    and "CHR ''?'' \<notin> set p1" and "q1 = [] \<or> hd q1 = CHR ''?''"
    and "CHR ''?'' \<notin> set p2" and "q2 = [] \<or> hd q2 = CHR ''?''"
  shows "get_endpoint_key (p1 @ ''/'' @ a @ ''/'' @ b @ replicate k1 (CHR ''/'') @ q1) = a @ ''/'' @ b
       \<and> get_endpoint_key (p2 @ ''/'' @ a @ ''/'' @ b @ replicate k2 (CHR ''/'') @ q2)
         = get_endpoint_key (p1 @ ''/'' @ a @ ''/'' @ b @ replicate k1 (CHR ''/'') @ q1)"
  using assms by (simp only: endpoint_key_of_url simp_thms)

theorem endpoint_key_shared_witness:
  "get_endpoint_key ''https://api.mimecast.com/api/v1/items/get?page=2'' = ''items/get''
   \<and> get_endpoint_key ''https://api.mimecast.com/api/v2/items/get/''
     = get_endpoint_key ''https://api.mimecast.com/api/v1/items/get?page=2''"
  using endpoint_key_shared [of "''items''" "''get''" "''https://api.mimecast.com/api/v1''" "''?page=2''"
      "''https://api.mimecast.com/api/v2''" "[]" 0 1]
  by simp

subsection \<open>Updating the tracker from response headers\<close>

text \<open>The definitions that are unfolded to evaluate a run on a concrete input.\<close>

lemmas run_defs =
  handle_request_def handle_loop.simps body_def precheck_def should_retry_def
  update_rate_limits_def header_get_def truthy_def LIMIT_HEADER_def REMAINING_HEADER_def
  RESET_HEADER_def backoff_sleep_def calculate_backoff_def sleep_def KTIME_SEC_MAX_def
  pow2_def above_float_int_bound below_float_int_bound Let_def
  get_endpoint_key_def Spec2Isabelle.split_def rstrip_def last_two_def
  scripted_def plain_def world0_def

lemmas parse_defs =
  new_entry_def py_int_def strip_def is_space_def parse_literal_def is_digit_def
  digit_value_def max_str_digits_def fromtimestamp_def

lemma py_int_error: "py_int v = Inl err \<Longrightarrow> err = ValueError"
  by (auto simp: py_int_def Let_def split: option.splits if_splits)

text \<open>
  The part of C7 that holds: when one of the three headers is absent, or is present but
  not an integer literal, the tracker is returned as it was and nothing is raised.
\<close>

lemma update_noop_on_bad_headers:
  assumes "header_get resp LIMIT_HEADER = None \<or> header_get resp REMAINING_HEADER = None
           \<or> header_get resp RESET_HEADER = None
           \<or> (\<exists>v. header_get resp LIMIT_HEADER = Some v \<and> isl (py_int v))
           \<or> (\<exists>v. header_get resp REMAINING_HEADER = Some v \<and> isl (py_int v))
           \<or> (\<exists>v. header_get resp RESET_HEADER = Some v \<and> isl (py_int v))"
  shows "update_rate_limits rl ep resp clock = Inr rl"
  using assms
  by (auto simp: update_rate_limits_def new_entry_def truthy_def Let_def
      dest: py_int_error split: sum.splits)

lemma new_entry_error_clock:
  "(new_entry l r t clock = Inl err) = (new_entry l r t clock' = Inl err)"
  by (auto simp: new_entry_def split: sum.splits)

lemma new_entry_reset_clock:
  "new_entry l r t clock = Inr x \<Longrightarrow> \<exists>y. new_entry l r t clock' = Inr y \<and> reset y = reset x"
  by (auto simp: new_entry_def split: sum.splits)

lemma update_error_clock:
  "(update_rate_limits rl ep resp clock = Inl err)
   = (update_rate_limits rl' ep' resp clock' = Inl err)"
proof -
  have "\<And>l r t. (\<exists>x. new_entry l r t clock = Inr x) = (\<exists>x. new_entry l r t clock' = Inr x)"
    by (auto simp: new_entry_def split: sum.splits)
  then show ?thesis
    using new_entry_error_clock [of _ _ _ clock _ clock']
    by (auto simp: update_rate_limits_def Let_def split: sum.splits)
qed

lemma update_raises_iff:
  "isl (update_rate_limits rl ep resp clock) = header_update_raises resp"
  unfolding header_update_raises_def
  using update_error_clock [of rl ep resp clock _ Map.empty "[]" 0]
  by (auto simp: isl_def)

lemma update_error_kind:
  "update_rate_limits rl ep resp clock = Inl err \<Longrightarrow> err = OverflowError \<or> err = OSError"
  by (auto simp: update_rate_limits_def new_entry_def py_int_def fromtimestamp_def Let_def
      split: sum.splits if_splits option.splits)

lemma headers_within_not_raises: "headers_within h resp \<Longrightarrow> \<not> header_update_raises resp"
  by (auto simp: headers_within_def header_update_raises_def split: sum.splits)

lemma update_within:
  assumes hw: "headers_within h resp" and rw: "reset_within h rl ep"
  shows "\<exists>rl'. update_rate_limits rl ep resp clock = Inr rl' \<and> reset_within h rl' ep"
proof (cases "truthy (header_get resp LIMIT_HEADER) \<and> truthy (header_get resp REMAINING_HEADER)
              \<and> truthy (header_get resp RESET_HEADER)")
  case False
  with rw show ?thesis by (auto simp: update_rate_limits_def Let_def)
next
  case True
  let ?l = "the (header_get resp LIMIT_HEADER)"
  let ?r = "the (header_get resp REMAINING_HEADER)"
  let ?t = "the (header_get resp RESET_HEADER)"
  show ?thesis
  proof (cases "new_entry ?l ?r ?t clock")
    case (Inl err)
    then have e0: "new_entry ?l ?r ?t 0 = Inl err"
      using new_entry_error_clock [of ?l ?r ?t clock err 0] by simp
    from hw True e0 have "err = ValueError \<or> err = TypeError"
      by (auto simp: headers_within_def update_rate_limits_def Let_def split: if_splits)
    with True Inl rw show ?thesis
      by (auto simp: update_rate_limits_def Let_def)
  next
    case (Inr x)
    then obtain y where y: "new_entry ?l ?r ?t 0 = Inr y" "reset y = reset x"
      using new_entry_reset_clock by blast
    from hw True y have "real_of_int (reset x) \<le> h"
      by (auto simp: headers_within_def update_rate_limits_def reset_within_def Let_def)
    with True Inr show ?thesis
      by (auto simp: update_rate_limits_def reset_within_def Let_def)
  qed
qed

text \<open>
  C7 says that the update never raises to its caller. The code misses a case: a reset
  header that is an integer literal but too large for the platform's \<^verbatim>\<open>time_t\<close> makes
  \<^verbatim>\<open>datetime.fromtimestamp\<close> raise \<^verbatim>\<open>OverflowError\<close>, which
  \<^verbatim>\<open>except (ValueError, TypeError)\<close> does not catch. The exception leaves
  \<^verbatim>\<open>_update_rate_limits\<close>, and then \<^verbatim>\<open>handle_request\<close>, whose \<^verbatim>\<open>except\<close> clause is for
  \<^verbatim>\<open>RequestException\<close> only; the response, a 200, is lost.
\<close>

theorem update_rate_limits_overflow_escapes:
  "update_rate_limits Map.empty ''v2/test''
     \<lparr>status_code = 200,
      headers = [(''x-mc-rate-limit'', ''100''), (''x-mc-rate-limit-remaining'', ''99''),
                 (''x-mc-rate-limit-reset'', ''99999999999999999999'')]\<rparr> 0
   = Inl OverflowError
   \<and> handle_request \<lparr>max_retries = 3, min_backoff = 1, max_backoff = 60, jitter = False\<rparr>
       (scripted []
          (Response \<lparr>status_code = 200,
             headers = [(''x-mc-rate-limit'', ''100''), (''x-mc-rate-limit-remaining'', ''99''),
                        (''x-mc-rate-limit-reset'', ''99999999999999999999'')]\<rparr>))
       ''GET'' ''https://api.mimecast.com/api/v2/test'' world0
     = (Inl OverflowError, world0\<lparr>calls := 1\<rparr>)"
  by (simp add: run_defs parse_defs)

subsection \<open>One pass through the loop body\<close>

lemma sleep_Inr:
  "sleep e d s = Inr s' \<Longrightarrow>
   0 \<le> d \<and> s' = s\<lparr>now := now s + d, sleeps := sleeps s @ [d]\<rparr>"
  by (auto simp: sleep_def split: if_splits)

lemma sleep_Inl:
  "sleep e d s = Inl err \<Longrightarrow> err = ValueError \<or> err = OverflowError \<or> err = OSError"
  by (auto simp: sleep_def split: if_splits)

lemma sleep_positive_Inl:
  "0 < d \<Longrightarrow> sleep e d s = Inl err \<Longrightarrow> err = OverflowError \<or> err = OSError"
  by (auto simp: sleep_def split: if_splits)

lemma precheck_Inr:
  "precheck e ep s = Inr s1 \<Longrightarrow>
   calls s1 = calls s \<and> draws s1 = draws s \<and> rate_limits s1 = rate_limits s \<and> now s \<le> now s1"
  by (auto simp: precheck_def split: prod.splits if_splits dest!: sleep_Inr)

lemma precheck_Inl:
  "precheck e ep s = Inl err \<Longrightarrow> err = OverflowError \<or> err = OSError"
  by (auto simp: precheck_def split: prod.splits if_splits dest: sleep_positive_Inl)

lemma backoff_sleep_Continue:
  "backoff_sleep cfg e rc s = Continue rc' s' \<Longrightarrow>
   rc' = rc \<and> calls s' = calls s \<and> rate_limits s' = rate_limits s \<and> now s \<le> now s'"
  by (auto simp: backoff_sleep_def Let_def split: sum.splits if_splits dest!: sleep_Inr)

lemma calculate_backoff_Inl:
  "calculate_backoff cfg rc rnd = Inl err \<Longrightarrow> err = OverflowError"
  by (auto simp: calculate_backoff_def Let_def split: if_splits)

lemma backoff_sleep_Raise:
  assumes "backoff_sleep cfg e rc s = Raise err s'"
  shows "(err = ValueError \<or> err = OverflowError \<or> err = OSError) \<and> calls s' = calls s"
  using assms
  by (auto simp: backoff_sleep_def Let_def split: sum.splits if_splits
      dest: sleep_Inl calculate_backoff_Inl)

lemma backoff_sleep_not_Return: "backoff_sleep cfg e rc s \<noteq> Return resp s'"
  by (auto simp: backoff_sleep_def Let_def split: sum.splits if_splits)

lemma body_Continue:
  assumes "body cfg e m u ep rc s = Continue rc' s'"
  shows "rc' = rc + 1 \<and> rc + 1 \<le> max_retries cfg \<and> calls s' = calls s + 1
         \<and> (is_throttled (request e m u (calls s)) \<or> is_transient (request e m u (calls s)))"
proof (cases "precheck e ep s")
  case (Inl err)
  with assms show ?thesis by (simp add: body_def)
next
  case (Inr s1)
  from precheck_Inr [OF Inr] have c: "calls s1 = calls s" by simp
  show ?thesis
    using assms Inr c
    by (auto simp: body_def Let_def is_throttled_def is_transient_def
        dest!: backoff_sleep_Continue
        split: outcome.splits sum.splits if_splits)
qed

lemma body_Return:
  assumes "body cfg e m u ep rc s = Return resp s'"
  shows "request e m u (calls s) = Response resp \<and> status_code resp \<noteq> 429
         \<and> calls s' = calls s + 1"
proof (cases "precheck e ep s")
  case (Inl err)
  with assms show ?thesis by (simp add: body_def)
next
  case (Inr s1)
  from precheck_Inr [OF Inr] have c: "calls s1 = calls s" by simp
  show ?thesis
    using assms Inr c
    by (auto simp: body_def Let_def backoff_sleep_not_Return
        split: outcome.splits sum.splits if_splits)
qed

lemma body_Raise:
  assumes "body cfg e m u ep rc s = Raise err s'"
  shows "(calls s' = calls s \<and> (err = OverflowError \<or> err = OSError))
       \<or> (calls s' = calls s + 1
           \<and> ((err = RateLimitExceeded (Exceeded_after_retries ep (max_retries cfg))
                 \<and> max_retries cfg < rc + 1 \<and> is_throttled (request e m u (calls s)))
              \<or> (\<exists>msg. err = RequestException msg \<and> request e m u (calls s) = Raises msg
                    \<and> max_retries cfg < rc + 1)
              \<or> (\<exists>name. err = OtherException name \<and> request e m u (calls s) = Crashes name)
              \<or> ((err = OverflowError \<or> err = OSError)
                    \<and> (\<exists>resp. request e m u (calls s) = Response resp
                          \<and> header_update_raises resp))
              \<or> ((err = ValueError \<or> err = OverflowError \<or> err = OSError)
                    \<and> rc + 1 \<le> max_retries cfg
                    \<and> (is_throttled (request e m u (calls s))
                        \<or> is_transient (request e m u (calls s))))))"
proof (cases "precheck e ep s")
  case (Inl x)
  with assms precheck_Inl [OF Inl] show ?thesis by (auto simp: body_def)
next
  case (Inr s1)
  from precheck_Inr [OF Inr] have c: "calls s1 = calls s" by simp
  show ?thesis
  proof (cases "request e m u (calls s)")
    case (Raises msg)
    then show ?thesis
      using assms Inr c
      by (auto simp: body_def Let_def is_transient_def dest!: backoff_sleep_Raise
          split: if_splits)
  next
    case (Crashes name)
    then show ?thesis
      using assms Inr c by (auto simp: body_def Let_def)
  next
    case (Response resp)
    show ?thesis
    proof (cases "update_rate_limits (rate_limits s1) ep resp (now s1)")
      case (Inl x)
      then have "header_update_raises resp" "x = OverflowError \<or> x = OSError"
        using update_raises_iff [of "rate_limits s1" ep resp "now s1"] update_error_kind [OF Inl]
        by auto
      with Inl Response show ?thesis
        using assms Inr c by (auto simp: body_def Let_def)
    next
      case (Inr rl)
      with Response show ?thesis
        using assms \<open>precheck e ep s = Inr s1\<close> c
        by (auto simp: body_def Let_def is_throttled_def dest!: backoff_sleep_Raise
            split: if_splits)
    qed
  qed
qed

subsection \<open>The loop\<close>

lemma loop_never_final:
  "rc \<le> max_retries cfg \<Longrightarrow>
   fst (handle_loop cfg e m u ep rc s) \<noteq> Inl (RateLimitExceeded (Max_retries_exceeded n k))"
proof (induction cfg e m u ep rc s rule: handle_loop.induct)
  case (1 cfg e m u ep rc s)
  show ?case
  proof (cases "body cfg e m u ep rc s")
    case (Return resp s1)
    with "1.prems" show ?thesis
      by (subst handle_loop.simps) simp
  next
    case (Raise err s1)
    from body_Raise [OF Raise] have "err \<noteq> RateLimitExceeded (Max_retries_exceeded n k)"
      by auto
    with Raise "1.prems" show ?thesis
      by (subst handle_loop.simps) simp
  next
    case (Continue rc1 s1)
    from body_Continue [OF Continue] have "rc1 \<le> max_retries cfg" by simp
    with "1.IH" [OF "1.prems" Continue]
    have "fst (handle_loop cfg e m u ep rc1 s1)
          \<noteq> Inl (RateLimitExceeded (Max_retries_exceeded n k))" .
    with Continue "1.prems" show ?thesis
      by (subst handle_loop.simps) simp
  qed
qed

lemma loop_calls_bound:
  "rc \<le> max_retries cfg \<Longrightarrow>
   calls (snd (handle_loop cfg e m u ep rc s)) \<le> calls s + nat (max_retries cfg - rc) + 1"
proof (induction cfg e m u ep rc s rule: handle_loop.induct)
  case (1 cfg e m u ep rc s)
  show ?case
  proof (cases "body cfg e m u ep rc s")
    case (Return resp s1)
    with "1.prems" body_Return [OF Return] show ?thesis
      by (subst handle_loop.simps) simp
  next
    case (Raise err s1)
    from body_Raise [OF Raise] have "calls s1 \<le> calls s + 1" by auto
    with Raise "1.prems" show ?thesis
      by (subst handle_loop.simps) simp
  next
    case (Continue rc1 s1)
    from body_Continue [OF Continue]
    have b: "rc1 = rc + 1" "rc1 \<le> max_retries cfg" "calls s1 = calls s + 1" by simp_all
    from "1.IH" [OF "1.prems" Continue b(2)]
    have "calls (snd (handle_loop cfg e m u ep rc1 s1))
          \<le> calls s1 + nat (max_retries cfg - rc1) + 1" .
    also have "\<dots> = calls s + nat (max_retries cfg - rc) + 1"
      using b by (simp add: nat_diff_distrib)
    finally show ?thesis
      using Continue "1.prems" by (subst handle_loop.simps) simp
  qed
qed

lemma loop_calls_mono: "calls s \<le> calls (snd (handle_loop cfg e m u ep rc s))"
proof (induction cfg e m u ep rc s rule: handle_loop.induct)
  case (1 cfg e m u ep rc s)
  show ?case
  proof (cases "rc \<le> max_retries cfg")
    case False
    then show ?thesis by (subst handle_loop.simps) simp
  next
    case le: True
    show ?thesis
    proof (cases "body cfg e m u ep rc s")
      case (Return resp s1)
      with le body_Return [OF Return] show ?thesis
        by (subst handle_loop.simps) simp
    next
      case (Raise err s1)
      from body_Raise [OF Raise] have "calls s \<le> calls s1" by auto
      with Raise le show ?thesis
        by (subst handle_loop.simps) simp
    next
      case (Continue rc1 s1)
      from body_Continue [OF Continue] have "calls s \<le> calls s1" by simp
      also note "1.IH" [OF le Continue]
      finally show ?thesis
        using Continue le by (subst handle_loop.simps) simp
    qed
  qed
qed

lemma throttled_step:
  "a < b \<Longrightarrow> throttled_responses e m u a b
     = (if is_throttled (request e m u a) then 1 else 0) + throttled_responses e m u (Suc a) b"
  by (simp add: throttled_responses_def upt_conv_Cons)

lemma transient_step:
  "a < b \<Longrightarrow> transient_failures e m u a b
     = (if is_transient (request e m u a) then 1 else 0) + transient_failures e m u (Suc a) b"
  by (simp add: transient_failures_def upt_conv_Cons)

lemma throttled_not_transient: "is_throttled out \<Longrightarrow> \<not> is_transient out"
  by (simp add: is_throttled_def is_transient_def split: outcome.splits)

lemma counts_empty:
  "throttled_responses e m u a a = 0" "transient_failures e m u a a = 0"
  by (simp_all add: throttled_responses_def transient_failures_def)

lemma loop_failure_count:
  assumes "rc \<le> max_retries cfg"
    and "fst (handle_loop cfg e m u ep rc s) = Inl err"
    and "(\<exists>k n. err = RateLimitExceeded (Exceeded_after_retries k n)) \<or> (\<exists>msg. err = RequestException msg)"
  shows "calls (snd (handle_loop cfg e m u ep rc s)) = calls s + nat (max_retries cfg - rc) + 1
       \<and> throttled_responses e m u (calls s) (calls (snd (handle_loop cfg e m u ep rc s)))
         + transient_failures e m u (calls s) (calls (snd (handle_loop cfg e m u ep rc s)))
         = nat (max_retries cfg - rc) + 1"
  using assms
proof (induction cfg e m u ep rc s rule: handle_loop.induct)
  case (1 cfg e m u ep rc s)
  note le = "1.prems"(1) and res = "1.prems"(2) and kind = "1.prems"(3)
  show ?case
  proof (cases "body cfg e m u ep rc s")
    case (Return resp s1)
    with le res show ?thesis
      by (subst (asm) handle_loop.simps) simp
  next
    case (Raise err1 s1)
    have u: "handle_loop cfg e m u ep rc s = (Inl err1, s1)"
      using Raise le by (subst handle_loop.simps) simp
    with res have e1: "err1 = err" by simp
    from body_Raise [OF Raise] kind e1 le
    have c: "calls s1 = calls s + 1" and rc: "rc = max_retries cfg"
      and o: "is_throttled (request e m u (calls s)) \<or> is_transient (request e m u (calls s))"
      by (auto simp: is_transient_def)
    from o have one: "throttled_responses e m u (calls s) (Suc (calls s))
                 + transient_failures e m u (calls s) (Suc (calls s)) = 1"
      using throttled_not_transient [of "request e m u (calls s)"]
      by (auto simp: throttled_step transient_step counts_empty)
    show ?thesis
      unfolding u using c rc one by simp
  next
    case (Continue rc1 s1)
    have u: "handle_loop cfg e m u ep rc s = handle_loop cfg e m u ep rc1 s1"
      using Continue le by (subst handle_loop.simps) simp
    from body_Continue [OF Continue]
    have b: "rc1 = rc + 1" "rc1 \<le> max_retries cfg" "calls s1 = calls s + 1"
      and o: "is_throttled (request e m u (calls s)) \<or> is_transient (request e m u (calls s))"
      by simp_all
    let ?s' = "snd (handle_loop cfg e m u ep rc1 s1)"
    from res u have res1: "fst (handle_loop cfg e m u ep rc1 s1) = Inl err" by simp
    note ih0 = "1.IH" [OF le Continue b(2) res1 kind]
    have ih: "calls ?s' = calls s1 + nat (max_retries cfg - rc1) + 1"
      "throttled_responses e m u (calls s1) (calls ?s')
       + transient_failures e m u (calls s1) (calls ?s') = nat (max_retries cfg - rc1) + 1"
      using ih0 by blast+
    have n: "nat (max_retries cfg - rc) = nat (max_retries cfg - rc1) + 1"
      using b by (simp add: nat_diff_distrib)
    from ih(1) b have lt: "calls s < calls ?s'" by simp
    from o have one: "(if is_throttled (request e m u (calls s)) then 1 else 0)
                 + (if is_transient (request e m u (calls s)) then 1 else (0::nat)) = 1"
      using throttled_not_transient [of "request e m u (calls s)"] by auto
    have "throttled_responses e m u (calls s) (calls ?s')
          + transient_failures e m u (calls s) (calls ?s')
          = 1 + (throttled_responses e m u (calls s1) (calls ?s')
                 + transient_failures e m u (calls s1) (calls ?s'))"
      using one b(3) by (simp add: throttled_step [OF lt] transient_step [OF lt])
    with ih n b show ?thesis
      unfolding u by simp
  qed
qed

lemma loop_negative:
  "max_retries cfg < rc \<Longrightarrow>
   handle_loop cfg e m u ep rc s
     = (Inl (RateLimitExceeded (Max_retries_exceeded (max_retries cfg) ep)), s)"
  by (subst handle_loop.simps) simp

lemma loop_outcomes:
  assumes "rc \<le> max_retries cfg"
  shows "(\<exists>resp i. fst (handle_loop cfg e m u ep rc s) = Inr resp
            \<and> request e m u i = Response resp \<and> status_code resp \<noteq> 429)
       \<or> fst (handle_loop cfg e m u ep rc s)
           = Inl (RateLimitExceeded (Exceeded_after_retries ep (max_retries cfg)))
       \<or> (\<exists>msg i. fst (handle_loop cfg e m u ep rc s) = Inl (RequestException msg)
            \<and> request e m u i = Raises msg)
       \<or> (\<exists>name i. fst (handle_loop cfg e m u ep rc s) = Inl (OtherException name)
            \<and> request e m u i = Crashes name)
       \<or> fst (handle_loop cfg e m u ep rc s) = Inl ValueError
       \<or> fst (handle_loop cfg e m u ep rc s) = Inl OverflowError
       \<or> fst (handle_loop cfg e m u ep rc s) = Inl OSError"
  using assms
proof (induction cfg e m u ep rc s rule: handle_loop.induct)
  case (1 cfg e m u ep rc s)
  note le = "1.prems"(1)
  show ?case
  proof (cases "body cfg e m u ep rc s")
    case (Return resp s1)
    have "handle_loop cfg e m u ep rc s = (Inr resp, s1)"
      using Return le by (subst handle_loop.simps) simp
    with body_Return [OF Return] show ?thesis by auto
  next
    case (Raise err s1)
    have "handle_loop cfg e m u ep rc s = (Inl err, s1)"
      using Raise le by (subst handle_loop.simps) simp
    with body_Raise [OF Raise] show ?thesis by auto
  next
    case (Continue rc1 s1)
    have u: "handle_loop cfg e m u ep rc s = handle_loop cfg e m u ep rc1 s1"
      using Continue le by (subst handle_loop.simps) simp
    from body_Continue [OF Continue] have "rc1 \<le> max_retries cfg" by simp
    from "1.IH" [OF le Continue this] show ?thesis
      by (simp only: u)
  qed
qed



subsection \<open>The backoff for large attempt numbers\<close>

text \<open>
  A handler with \<open>max_retries = 1024\<close> and both backoff bounds 0.0, on a transport that always
  answers 429 without headers: every pass but the last sleeps for 0.0 seconds and goes on.
\<close>

lemma zero_backoff_pass:
  assumes cfg: "max_retries cfg = 1024" "min_backoff cfg = 0" "max_backoff cfg = 0" "\<not> jitter cfg"
    and req: "request e m u (calls s) = Response (plain 429)"
    and rl: "rate_limits s ep = None"
    and clock: "now s - boot e < KTIME_SEC_MAX"
    and rc: "0 \<le> rc" "rc \<le> 1023"
  shows "body cfg e m u ep rc s =
           (if rc = 1023 then Raise OverflowError (s\<lparr>calls := calls s + 1\<rparr>)
            else Continue (rc + 1) (s\<lparr>calls := calls s + 1, sleeps := sleeps s @ [0]\<rparr>))"
  using assms
  by (simp add: body_def precheck_def should_retry_def update_rate_limits_def header_get_def
      truthy_def plain_def backoff_sleep_def calculate_backoff_def sleep_def
      above_float_int_bound KTIME_SEC_MAX_def Let_def)

lemma zero_backoff_loop:
  assumes cfg: "max_retries cfg = 1024" "min_backoff cfg = 0" "max_backoff cfg = 0" "\<not> jitter cfg"
    and req: "\<forall>i. request e m u i = Response (plain 429)"
  shows "k = nat (1023 - rc) \<Longrightarrow> 0 \<le> rc \<Longrightarrow> rc \<le> 1023 \<Longrightarrow> rate_limits s ep = None \<Longrightarrow>
         now s - boot e < KTIME_SEC_MAX \<Longrightarrow>
         handle_loop cfg e m u ep rc s
           = (Inl OverflowError,
              s\<lparr>calls := calls s + nat (1024 - rc),
                sleeps := sleeps s @ replicate (nat (1023 - rc)) 0\<rparr>)"
proof (induction k arbitrary: rc s)
  case 0
  then have rc: "rc = 1023" by simp
  from req have r: "request e m u (calls s) = Response (plain 429)" by simp
  from zero_backoff_pass [OF cfg r "0.prems"(4,5,2,3)]
  have "body cfg e m u ep rc s = Raise OverflowError (s\<lparr>calls := calls s + 1\<rparr>)"
    using rc by simp
  then show ?case
    using rc cfg(1) by (subst handle_loop.simps) simp
next
  case (Suc k)
  then have lt: "rc < 1023" and k: "k = nat (1023 - (rc + 1))" by simp_all
  let ?s = "s\<lparr>calls := calls s + 1, sleeps := sleeps s @ [0]\<rparr>"
  from req have r: "request e m u (calls s) = Response (plain 429)" by simp
  from zero_backoff_pass [OF cfg r Suc.prems(4,5,2,3)] lt
  have b: "body cfg e m u ep rc s = Continue (rc + 1) ?s" by simp
  have ih: "handle_loop cfg e m u ep (rc + 1) ?s
           = (Inl OverflowError,
              ?s\<lparr>calls := calls ?s + nat (1024 - (rc + 1)),
                sleeps := sleeps ?s @ replicate (nat (1023 - (rc + 1))) 0\<rparr>)"
    using Suc.prems lt by (intro Suc.IH [OF k]) simp_all
  have n1: "nat (1024 - rc) = Suc (nat (1024 - (rc + 1)))" using lt Suc.prems(2) by simp
  have n2: "nat (1023 - rc) = Suc (nat (1023 - (rc + 1)))" using lt Suc.prems(2) by simp
  have "handle_loop cfg e m u ep rc s = handle_loop cfg e m u ep (rc + 1) ?s"
    using b lt cfg(1) by (subst handle_loop.simps) simp
  also note ih
  finally show ?case
    unfolding n1 n2 by (simp add: replicate_append_same)
qed

text \<open>
  C8 says that without jitter the backoff equals \<open>min(maxBackoff, minBackoff * 2^n)\<close> for
  every attempt number \<open>n \<ge> 0\<close>. The code misses a case: it caps the backoff with
  \<^verbatim>\<open>min(self.max_backoff, ...)\<close>, but computes the uncapped product first, and from
  \<open>n = 1024\<close> on the conversion of \<open>2 ** n\<close> to a float raises \<^verbatim>\<open>OverflowError\<close>. For the
  default bounds 1.0 and 60.0 the claim gives 60.0 at \<open>n = 1024\<close>, and the code no value.
  \<^verbatim>\<open>handle_request\<close> reaches this attempt number when \<open>max_retries\<close> is 1024 or more: with
  both bounds 0.0 and a transport that always answers 429, the call ends after 1024
  transport calls and 1023 sleeps of 0.0 seconds with the \<^verbatim>\<open>OverflowError\<close>, not with a
  \<^verbatim>\<open>RateLimitExceeded\<close> after 1025 calls.
\<close>

theorem backoff_overflows_at_1024:
  "calculate_backoff \<lparr>max_retries = 3, min_backoff = 1, max_backoff = 60, jitter = False\<rparr> 1024 0
     = Inl OverflowError
   \<and> handle_request \<lparr>max_retries = 1024, min_backoff = 0, max_backoff = 0, jitter = False\<rparr>
       (scripted [] (Response (plain 429)))
       ''GET'' ''https://api.mimecast.com/api/v2/test'' world0
     = (Inl OverflowError, world0\<lparr>calls := 1024, sleeps := replicate 1023 0\<rparr>)"
proof -
  let ?cfg = "\<lparr>max_retries = 1024, min_backoff = 0, max_backoff = 0, jitter = False\<rparr>"
  let ?e = "scripted [] (Response (plain 429))"
  let ?u = "''https://api.mimecast.com/api/v2/test''"
  have a: "calculate_backoff \<lparr>max_retries = 3, min_backoff = 1, max_backoff = 60, jitter = False\<rparr> 1024 0
     = Inl OverflowError"
    by (simp add: calculate_backoff_def)
  have req: "\<forall>i. request ?e ''GET'' ?u i = Response (plain 429)"
    by (simp add: scripted_def)
  have "handle_loop ?cfg ?e ''GET'' ?u (get_endpoint_key ?u) 0 world0
        = (Inl OverflowError,
           world0\<lparr>calls := calls world0 + nat (1024 - 0),
                  sleeps := sleeps world0 @ replicate (nat (1023 - 0)) 0\<rparr>)"
    by (rule zero_backoff_loop [OF _ _ _ _ req refl])
       (simp_all add: world0_def scripted_def KTIME_SEC_MAX_def)
  then have b: "handle_request ?cfg ?e ''GET'' ?u world0
     = (Inl OverflowError, world0\<lparr>calls := 1024, sleeps := replicate 1023 0\<rparr>)"
    by (simp add: handle_request_def world0_def)
  from a b show ?thesis by blast
qed

subsection \<open>The constructor\<close>

text \<open>
  C4 says that an invalid configuration, such as a negative \<open>maxRetries\<close>, makes the
  constructor raise. It does not: the constructor accepts \<open>max_retries = -1\<close>, and the
  failure appears only when \<^verbatim>\<open>handle_request\<close> is called, which then raises
  \<^verbatim>\<open>RateLimitExceeded\<close> without calling the transport.
\<close>

theorem init_accepts_negative_max_retries:
  "init (- 1) 1 60 True world0
     = Inr (\<lparr>max_retries = - 1, min_backoff = 1, max_backoff = 60, jitter = True\<rparr>, world0)
   \<and> handle_request \<lparr>max_retries = - 1, min_backoff = 1, max_backoff = 60, jitter = True\<rparr>
        (scripted [] (Response (plain 200))) ''GET'' ''https://api.mimecast.com/api/v2/test'' world0
     = (Inl (RateLimitExceeded (Max_retries_exceeded (- 1) ''v2/test'')), world0)"
  by (simp add: init_def run_defs)

text \<open>
  C4, as the code has it. The constructor validates nothing: for all arguments it returns
  a handler that holds the four values unchanged and an empty tracker, and it never
  raises. The effect of a negative \<open>maxRetries\<close> appears at call time: on the handler so
  constructed, every call of \<^verbatim>\<open>handle_request\<close> raises the \<^verbatim>\<open>RateLimitExceeded\<close> after the
  loop and leaves the state as it was, so without a transport call.
\<close>

theorem init_validates_nothing:
  "init mr minb maxb j world
     = Inr (\<lparr>max_retries = mr, min_backoff = minb, max_backoff = maxb, jitter = j\<rparr>,
            world\<lparr>rate_limits := Map.empty\<rparr>)
   \<and> (mr < 0 \<longrightarrow>
        handle_request \<lparr>max_retries = mr, min_backoff = minb, max_backoff = maxb, jitter = j\<rparr>
          e m u (world\<lparr>rate_limits := Map.empty\<rparr>)
        = (Inl (RateLimitExceeded (Max_retries_exceeded mr (get_endpoint_key u))),
           world\<lparr>rate_limits := Map.empty\<rparr>))"
proof (intro conjI impI)
  show "init mr minb maxb j world
     = Inr (\<lparr>max_retries = mr, min_backoff = minb, max_backoff = maxb, jitter = j\<rparr>,
            world\<lparr>rate_limits := Map.empty\<rparr>)"
    by (simp add: init_def)
next
  let ?cfg = "\<lparr>max_retries = mr, min_backoff = minb, max_backoff = maxb, jitter = j\<rparr>"
  assume "mr < 0"
  then have "max_retries ?cfg < 0" by simp
  from loop_negative [OF this, of e m u "get_endpoint_key u" "world\<lparr>rate_limits := Map.empty\<rparr>"]
  show "handle_request ?cfg e m u (world\<lparr>rate_limits := Map.empty\<rparr>)
        = (Inl (RateLimitExceeded (Max_retries_exceeded mr (get_endpoint_key u))),
           world\<lparr>rate_limits := Map.empty\<rparr>)"
    by (simp add: handle_request_def)
qed

theorem init_validates_nothing_witness:
  "init (- 5) (- 1) 60 True world0
     = Inr (\<lparr>max_retries = - 5, min_backoff = - 1, max_backoff = 60, jitter = True\<rparr>, world0)
   \<and> handle_request \<lparr>max_retries = - 5, min_backoff = - 1, max_backoff = 60, jitter = True\<rparr>
        (scripted [] (Response (plain 200))) ''GET'' ''https://api.mimecast.com/api/v2/test'' world0
     = (Inl (RateLimitExceeded (Max_retries_exceeded (- 5) ''v2/test'')), world0)"
proof -
  have k: "get_endpoint_key ''https://api.mimecast.com/api/v2/test'' = ''v2/test''"
    by (simp add: get_endpoint_key_def Spec2Isabelle.split_def rstrip_def last_two_def)
  have w: "world0\<lparr>rate_limits := Map.empty\<rparr> = world0" by (simp add: world0_def)
  have n: "(- 5 :: int) < 0" by simp
  from init_validates_nothing [of "- 5" "- 1" 60 True world0 "scripted [] (Response (plain 200))"
      "''GET''" "''https://api.mimecast.com/api/v2/test''"] n
  show ?thesis unfolding k w by blast
qed

subsection \<open>Calls in which no library function fails\<close>

lemma backoff_range:
  assumes "0 \<le> min_backoff cfg" and "0 \<le> max_backoff cfg" and "0 \<le> rc \<and> rc < 1024"
    and "0 \<le> rnd" and "rnd < 1"
  shows "\<exists>d. calculate_backoff cfg rc rnd = Inr d \<and> 0 \<le> d \<and> d \<le> 3 / 2 * max_backoff cfg"
proof -
  let ?b = "min (max_backoff cfg) (min_backoff cfg * pow2 rc)"
  have b0: "0 \<le> ?b" using assms(1,2) pow2_nonneg [of rc] by simp
  have b1: "?b \<le> max_backoff cfg" by simp
  show ?thesis
  proof (cases "jitter cfg")
    case False
    have "max_backoff cfg \<le> 3 / 2 * max_backoff cfg" using assms(2) by simp
    with b1 have "?b \<le> 3 / 2 * max_backoff cfg" by (rule order_trans)
    with False assms(3) b0 show ?thesis
      by (simp add: calculate_backoff_def above_float_int_bound Let_def)
  next
    case True
    have "?b * (0.5 + rnd) \<le> ?b * (3 / 2)"
      using b0 assms(5) by (intro mult_left_mono) simp_all
    also have "\<dots> \<le> max_backoff cfg * (3 / 2)"
      using b1 by (intro mult_right_mono) simp_all
    finally have up: "?b * (0.5 + rnd) \<le> 3 / 2 * max_backoff cfg" by simp
    have lo: "0 \<le> ?b * (0.5 + rnd)"
      using b0 assms(4) by (intro mult_nonneg_nonneg) simp_all
    from True assms(3) up lo show ?thesis
      by (simp add: calculate_backoff_def above_float_int_bound Let_def)
  qed
qed

lemma sleep_ok:
  assumes "0 \<le> d" and "d \<le> 4 * 10 ^ 9" and "now s - boot e + d \<le> 5 * 10 ^ 9"
  shows "sleep e d s = Inr (s\<lparr>now := now s + d, sleeps := sleeps s @ [d]\<rparr>)"
proof -
  from assms(1,2) have "d * 10 ^ 9 \<le> 4 * 10 ^ 9 * 10 ^ 9"
    by (intro mult_right_mono) simp_all
  then have a: "\<not> 2 ^ 63 - 1 < d * 10 ^ 9" by simp
  from assms(1) have "0 \<le> d * 10 ^ 9" by simp
  then have b: "\<not> d * 10 ^ 9 < - (2 ^ 63)" by simp
  from assms(3) have c: "\<not> KTIME_SEC_MAX \<le> now s - boot e + d"
    by (simp add: KTIME_SEC_MAX_def)
  from a b c assms(1) show ?thesis
    by (simp add: sleep_def)
qed

lemma precheck_calm:
  assumes "boot e \<le> start" and "start \<le> boot e + 10 ^ 9" and "start \<le> now s"
    and "reset_within (start + 10 ^ 9) (rate_limits s) ep"
  shows "\<exists>s1. precheck e ep s = Inr s1 \<and> now s1 \<le> max (now s) (start + 10 ^ 9 + 1)"
proof (cases "snd (should_retry (rate_limits s) ep (now s)) > 0")
  case False
  then show ?thesis
    by (auto simp: precheck_def split: prod.splits)
next
  case True
  then obtain info where i: "rate_limits s ep = Some info"
    and w: "should_retry (rate_limits s) ep (now s) = (True, real_of_int (reset info) - now s + 1)"
    and f: "now s < real_of_int (reset info)"
    by (auto simp: should_retry_def Let_def split: option.splits if_splits)
  let ?d = "real_of_int (reset info) - now s + 1"
  from assms(4) i have r: "real_of_int (reset info) \<le> start + 10 ^ 9"
    by (simp add: reset_within_def)
  have d0: "0 \<le> ?d" using f by simp
  have d1: "?d \<le> 4 * 10 ^ 9" using r assms(3) by simp
  have d2: "now s - boot e + ?d \<le> 5 * 10 ^ 9" using r assms(2) by simp
  from sleep_ok [OF d0 d1 d2] w f
  have "precheck e ep s = Inr (s\<lparr>now := now s + ?d, sleeps := sleeps s @ [?d]\<rparr>)"
    by (simp add: precheck_def)
  with r show ?thesis by simp
qed

lemma backoff_calm:
  assumes env: "calm_env cfg e m u start"
    and rc: "0 \<le> rc" "rc + 1 \<le> max_retries cfg"
    and lo: "start \<le> now s"
    and hi: "now s \<le> start + 10 ^ 9 + 1 + real_of_int rc * (3 / 2 * max_backoff cfg)"
  shows "\<exists>s2. backoff_sleep cfg e (rc + 1) s = Continue (rc + 1) s2
           \<and> rate_limits s2 = rate_limits s \<and> start \<le> now s2
           \<and> now s2 \<le> start + 10 ^ 9 + 1 + real_of_int (rc + 1) * (3 / 2 * max_backoff cfg)"
proof -
  from env have mb: "0 \<le> max_backoff cfg" and mn: "0 \<le> min_backoff cfg"
    and mr: "max_retries cfg < 1024"
    and bud: "real_of_int (max_retries cfg) * max_backoff cfg \<le> 10 ^ 9"
    and rnd: "0 \<le> random e (draws s)" "random e (draws s) < 1"
    and bt: "boot e \<le> start" "start \<le> boot e + 10 ^ 9"
    by (simp_all add: calm_env_def)
  from rc mr have "0 \<le> rc + 1 \<and> rc + 1 < 1024" by simp
  from backoff_range [OF mn mb this rnd]
  obtain d where d: "calculate_backoff cfg (rc + 1) (random e (draws s)) = Inr d"
    and d0: "0 \<le> d" and db: "d \<le> 3 / 2 * max_backoff cfg"
    by blast
  define M where "M = max_backoff cfg"
  define X where "X = real_of_int (rc + 1) * (3 / 2 * M)"
  define Y where "Y = real_of_int rc * (3 / 2 * M)"
  have "real_of_int (rc + 1) * M \<le> real_of_int (max_retries cfg) * M"
    unfolding M_def using rc mb by (intro mult_right_mono) simp_all
  with bud have tot: "real_of_int (rc + 1) * M \<le> 10 ^ 9" by (simp add: M_def)
  have "1 * M \<le> real_of_int (rc + 1) * M"
    unfolding M_def using rc mb by (intro mult_right_mono) simp_all
  with tot have mb9: "M \<le> 10 ^ 9" by simp
  have step: "X = Y + 3 / 2 * M"
    by (simp add: X_def Y_def algebra_simps)
  have tot': "X \<le> 3 / 2 * 10 ^ 9"
  proof -
    have "X = 3 / 2 * (real_of_int (rc + 1) * M)"
      unfolding X_def by (simp only: mult.left_commute)
    also have "\<dots> \<le> 3 / 2 * 10 ^ 9"
      using tot by (intro mult_left_mono) simp_all
    finally show ?thesis .
  qed
  from hi have hi': "now s \<le> start + 10 ^ 9 + 1 + Y" by (simp only: Y_def M_def)
  from db have db': "d \<le> 3 / 2 * M" by (simp only: M_def)
  let ?s1 = "if jitter cfg then s\<lparr>draws := draws s + 1\<rparr> else s"
  have n1: "now ?s1 = now s" by simp
  have a1: "d \<le> 4 * 10 ^ 9" using db' mb9 by simp
  have nd: "now s + d \<le> start + 10 ^ 9 + 1 + X"
    unfolding step using hi' db' by simp
  then have up: "now s + d \<le> start + 10 ^ 9 + 1 + 3 / 2 * 10 ^ 9"
    using tot' by simp
  have a2: "now ?s1 - boot e + d \<le> 5 * 10 ^ 9"
    unfolding n1 using up bt(2) by simp
  from sleep_ok [OF d0 a1 a2]
  have sl: "sleep e d ?s1 = Inr (?s1\<lparr>now := now ?s1 + d, sleeps := sleeps ?s1 @ [d]\<rparr>)" .
  have "backoff_sleep cfg e (rc + 1) s
        = Continue (rc + 1) (?s1\<lparr>now := now ?s1 + d, sleeps := sleeps ?s1 @ [d]\<rparr>)"
    unfolding backoff_sleep_def d using sl by (simp add: Let_def)
  moreover have "rate_limits (?s1\<lparr>now := now ?s1 + d, sleeps := sleeps ?s1 @ [d]\<rparr>) = rate_limits s"
    by simp
  moreover have "start \<le> now (?s1\<lparr>now := now ?s1 + d, sleeps := sleeps ?s1 @ [d]\<rparr>)"
    using lo d0 by simp
  moreover have "now (?s1\<lparr>now := now ?s1 + d, sleeps := sleeps ?s1 @ [d]\<rparr>)
        \<le> start + 10 ^ 9 + 1 + real_of_int (rc + 1) * (3 / 2 * max_backoff cfg)"
    using nd unfolding X_def M_def by simp
  ultimately show ?thesis by blast
qed

lemma body_calm:
  assumes env: "calm_env cfg e m u start"
    and inv: "calm_inv cfg start ep rc s"
    and le: "rc \<le> max_retries cfg"
  shows "(\<forall>err s'. body cfg e m u ep rc s = Raise err s' \<longrightarrow>
            err = RateLimitExceeded (Exceeded_after_retries ep (max_retries cfg))
            \<or> (\<exists>msg i. err = RequestException msg \<and> request e m u i = Raises msg)
            \<or> (\<exists>name i. err = OtherException name \<and> request e m u i = Crashes name))
       \<and> (\<forall>rc' s'. body cfg e m u ep rc s = Continue rc' s' \<longrightarrow>
            calm_inv cfg start ep (rc + 1) s')"
proof -
  from env have bt: "boot e \<le> start" "start \<le> boot e + 10 ^ 9" and mb: "0 \<le> max_backoff cfg"
    and hw: "\<forall>i resp. request e m u i = Response resp \<longrightarrow> headers_within (start + 10 ^ 9) resp"
    by (simp_all add: calm_env_def)
  from inv have rc0: "0 \<le> rc" and lo: "start \<le> now s"
    and hi: "now s \<le> start + 10 ^ 9 + 1 + real_of_int rc * (3 / 2 * max_backoff cfg)"
    and rw: "reset_within (start + 10 ^ 9) (rate_limits s) ep"
    by (simp_all add: calm_inv_def)
  from precheck_calm [OF bt lo rw]
  obtain s1 where p: "precheck e ep s = Inr s1"
    and n1: "now s1 \<le> max (now s) (start + 10 ^ 9 + 1)"
    by blast
  from precheck_Inr [OF p] have r1: "rate_limits s1 = rate_limits s" and lo1: "now s \<le> now s1"
    by simp_all
  have "0 \<le> real_of_int rc * (3 / 2 * max_backoff cfg)"
    using rc0 mb by (intro mult_nonneg_nonneg) simp_all
  with n1 hi have hi1: "now s1 \<le> start + 10 ^ 9 + 1 + real_of_int rc * (3 / 2 * max_backoff cfg)"
    by simp
  from lo lo1 have lo1': "start \<le> now s1" by simp
  let ?s2 = "s1\<lparr>calls := calls s1 + 1\<rparr>"
  show ?thesis
  proof (cases "request e m u (calls s1)")
    case (Crashes name)
    with p have "body cfg e m u ep rc s = Raise (OtherException name) ?s2"
      by (simp add: body_def Let_def)
    with Crashes show ?thesis by auto
  next
    case (Raises msg)
    show ?thesis
    proof (cases "rc + 1 > max_retries cfg")
      case True
      with p Raises have "body cfg e m u ep rc s = Raise (RequestException msg) ?s2"
        by (simp add: body_def Let_def)
      with Raises show ?thesis by auto
    next
      case False
      then have le1: "rc + 1 \<le> max_retries cfg" by simp
      have lo2: "start \<le> now ?s2" using lo1' by simp
      have hi2: "now ?s2 \<le> start + 10 ^ 9 + 1 + real_of_int rc * (3 / 2 * max_backoff cfg)"
        using hi1 by simp
      from backoff_calm [OF env rc0 le1 lo2 hi2]
      obtain s' where b: "backoff_sleep cfg e (rc + 1) ?s2 = Continue (rc + 1) s'"
        and br: "rate_limits s' = rate_limits ?s2" and bl: "start \<le> now s'"
        and bh: "now s' \<le> start + 10 ^ 9 + 1 + real_of_int (rc + 1) * (3 / 2 * max_backoff cfg)"
        by blast
      from p Raises False b have "body cfg e m u ep rc s = Continue (rc + 1) s'"
        by (simp add: body_def Let_def)
      moreover have "calm_inv cfg start ep (rc + 1) s'"
        unfolding calm_inv_def using rc0 bl bh br r1 rw by simp
      ultimately show ?thesis by simp
    qed
  next
    case (Response resp)
    with hw have "headers_within (start + 10 ^ 9) resp" by blast
    from update_within [OF this, of "rate_limits ?s2" ep "now ?s2"] rw r1
    obtain rl where up: "update_rate_limits (rate_limits ?s2) ep resp (now ?s2) = Inr rl"
      and rw': "reset_within (start + 10 ^ 9) rl ep"
      by auto
    let ?s3 = "?s2\<lparr>rate_limits := rl\<rparr>"
    show ?thesis
    proof (cases "status_code resp = 429")
      case False
      with p Response up have "body cfg e m u ep rc s = Return resp ?s3"
        by (simp add: body_def Let_def)
      then show ?thesis by simp
    next
      case True
      show ?thesis
      proof (cases "rc + 1 > max_retries cfg")
        case over: True
        with p Response up True have "body cfg e m u ep rc s
          = Raise (RateLimitExceeded (Exceeded_after_retries ep (max_retries cfg))) ?s3"
          by (simp add: body_def Let_def)
        then show ?thesis by simp
      next
        case False
        then have le1: "rc + 1 \<le> max_retries cfg" by simp
        have lo3: "start \<le> now ?s3" using lo1' by simp
        have hi3: "now ?s3 \<le> start + 10 ^ 9 + 1 + real_of_int rc * (3 / 2 * max_backoff cfg)"
          using hi1 by simp
        from backoff_calm [OF env rc0 le1 lo3 hi3]
        obtain s' where b: "backoff_sleep cfg e (rc + 1) ?s3 = Continue (rc + 1) s'"
          and br: "rate_limits s' = rate_limits ?s3" and bl: "start \<le> now s'"
          and bh: "now s' \<le> start + 10 ^ 9 + 1 + real_of_int (rc + 1) * (3 / 2 * max_backoff cfg)"
          by blast
        from p Response up True False b have "body cfg e m u ep rc s = Continue (rc + 1) s'"
          by (simp add: body_def Let_def)
        moreover have "calm_inv cfg start ep (rc + 1) s'"
          unfolding calm_inv_def using rc0 bl bh br rw' by simp
        ultimately show ?thesis by simp
      qed
    qed
  qed
qed

lemma loop_calm:
  assumes "calm_env cfg e m u start" and "calm_inv cfg start ep rc s" and "rc \<le> max_retries cfg"
  shows "(\<exists>resp i. fst (handle_loop cfg e m u ep rc s) = Inr resp
            \<and> request e m u i = Response resp \<and> status_code resp \<noteq> 429)
       \<or> fst (handle_loop cfg e m u ep rc s)
           = Inl (RateLimitExceeded (Exceeded_after_retries ep (max_retries cfg)))
       \<or> (\<exists>msg i. fst (handle_loop cfg e m u ep rc s) = Inl (RequestException msg)
            \<and> request e m u i = Raises msg)
       \<or> (\<exists>name i. fst (handle_loop cfg e m u ep rc s) = Inl (OtherException name)
            \<and> request e m u i = Crashes name)"
  using assms
proof (induction cfg e m u ep rc s rule: handle_loop.induct)
  case (1 cfg e m u ep rc s)
  note env = "1.prems"(1) and inv = "1.prems"(2) and le = "1.prems"(3)
  note bc = body_calm [OF env inv le]
  show ?case
  proof (cases "body cfg e m u ep rc s")
    case (Return resp s1)
    have "handle_loop cfg e m u ep rc s = (Inr resp, s1)"
      using Return le by (subst handle_loop.simps) simp
    with body_Return [OF Return] show ?thesis by auto
  next
    case (Raise err s1)
    have "handle_loop cfg e m u ep rc s = (Inl err, s1)"
      using Raise le by (subst handle_loop.simps) simp
    with bc Raise show ?thesis by auto
  next
    case (Continue rc1 s1)
    have u: "handle_loop cfg e m u ep rc s = handle_loop cfg e m u ep rc1 s1"
      using Continue le by (subst handle_loop.simps) simp
    from body_Continue [OF Continue] have r1: "rc1 = rc + 1" "rc1 \<le> max_retries cfg" by simp_all
    from bc Continue r1 have inv1: "calm_inv cfg start ep rc1 s1" by auto
    from "1.IH" [OF le Continue env inv1 r1(2)] show ?thesis
      by (simp only: u)
  qed
qed

lemma calm_start:
  assumes "calm cfg e m u s"
  shows "calm_env cfg e m u (now s)" and "calm_inv cfg (now s) (get_endpoint_key u) 0 s"
  using assms by (simp_all add: calm_def calm_env_def calm_inv_def)

lemma plain_within: "headers_within h (plain code)"
  by (simp add: headers_within_def reset_within_def update_rate_limits_def header_get_def
      truthy_def plain_def Let_def)

lemma throttled60_within: "headers_within (10 ^ 9) throttled60"
  by (simp add: headers_within_def reset_within_def throttled60_def update_rate_limits_def
      header_get_def truthy_def LIMIT_HEADER_def REMAINING_HEADER_def RESET_HEADER_def
      parse_defs Let_def)

lemma calm_scripted:
  assumes "0 \<le> min_backoff cfg" and "0 \<le> max_backoff cfg" and "max_retries cfg < 1024"
    and "real_of_int (max_retries cfg) * max_backoff cfg \<le> 10 ^ 9"
    and "headers_within (10 ^ 9) resp"
  shows "calm cfg (scripted [] (Response resp)) m u world0"
  using assms by (simp add: calm_def scripted_def world0_def reset_within_def)

subsection \<open>The retry budget\<close>

text \<open>
  C1 says that throttling retries and transient-failure retries each have their own budget
  of \<open>maxRetries\<close>. In the code both branches increment the one variable \<^verbatim>\<open>retry_count\<close>.
  With \<open>maxRetries = 1\<close> and a transport that answers 429, then raises, then would answer
  200: the 429 uses the only retry, and the first transport exception, for which no
  transient-failure retry has been used yet, is already raised to the caller after two
  calls. Of these two calls one was throttled and one failed.
\<close>

theorem shared_retry_counter_counterexample:
  "handle_request \<lparr>max_retries = 1, min_backoff = 1, max_backoff = 60, jitter = False\<rparr>
     (scripted [Response (plain 429), Raises ''timeout''] (Response (plain 200)))
     ''GET'' ''https://api.mimecast.com/api/v2/test'' world0
   = (Inl (RequestException ''timeout''), world0\<lparr>now := 2, calls := 2, sleeps := [2]\<rparr>)
   \<and> throttled_responses (scripted [Response (plain 429), Raises ''timeout''] (Response (plain 200)))
       ''GET'' ''https://api.mimecast.com/api/v2/test'' 0 2 = 1
   \<and> transient_failures (scripted [Response (plain 429), Raises ''timeout''] (Response (plain 200)))
       ''GET'' ''https://api.mimecast.com/api/v2/test'' 0 2 = 1"
  by (simp add: run_defs throttled_responses_def transient_failures_def is_throttled_def
      is_transient_def upt_rec)

text \<open>
  C1, as the code has it. \<open>maxRetries\<close> is one budget shared by throttling retries and
  transient-failure retries: for \<open>maxRetries \<ge> 0\<close>, one call of \<^verbatim>\<open>handle_request\<close> makes at
  most \<open>maxRetries + 1\<close> transport calls, whatever the mix of 429 responses and transport
  exceptions; and when it ends with the \<^verbatim>\<open>RateLimitExceeded\<close> of the loop or with the
  transport's exception, it has made exactly \<open>maxRetries + 1\<close> calls and the 429 responses
  and the transport exceptions among them number \<open>maxRetries + 1\<close> together.
\<close>

theorem retry_budget_shared:
  "0 \<le> max_retries cfg \<longrightarrow>
     calls (snd (handle_request cfg e m u s)) \<le> calls s + nat (max_retries cfg) + 1
     \<and> (\<forall>err. fst (handle_request cfg e m u s) = Inl err
            \<and> ((\<exists>k n. err = RateLimitExceeded (Exceeded_after_retries k n))
                \<or> (\<exists>msg. err = RequestException msg)) \<longrightarrow>
          calls (snd (handle_request cfg e m u s)) = calls s + nat (max_retries cfg) + 1
          \<and> throttled_responses e m u (calls s) (calls (snd (handle_request cfg e m u s)))
            + transient_failures e m u (calls s) (calls (snd (handle_request cfg e m u s)))
            = nat (max_retries cfg) + 1)"
proof (intro impI conjI allI)
  assume le: "0 \<le> max_retries cfg"
  show "calls (snd (handle_request cfg e m u s)) \<le> calls s + nat (max_retries cfg) + 1"
    using loop_calls_bound [OF le, of e m u "get_endpoint_key u" s]
    by (simp add: handle_request_def)
next
  fix err
  assume le: "0 \<le> max_retries cfg"
    and f: "fst (handle_request cfg e m u s) = Inl err
            \<and> ((\<exists>k n. err = RateLimitExceeded (Exceeded_after_retries k n))
                \<or> (\<exists>msg. err = RequestException msg))"
  from f have r: "fst (handle_loop cfg e m u (get_endpoint_key u) 0 s) = Inl err"
    and k: "(\<exists>k n. err = RateLimitExceeded (Exceeded_after_retries k n))
            \<or> (\<exists>msg. err = RequestException msg)"
    by (simp_all add: handle_request_def)
  note c = loop_failure_count [OF le r k]
  have h: "handle_request cfg e m u s = handle_loop cfg e m u (get_endpoint_key u) 0 s"
    by (simp add: handle_request_def)
  from c [THEN conjunct1]
  show "calls (snd (handle_request cfg e m u s)) = calls s + nat (max_retries cfg) + 1"
    unfolding h by simp
  from c [THEN conjunct2]
  show "throttled_responses e m u (calls s) (calls (snd (handle_request cfg e m u s)))
            + transient_failures e m u (calls s) (calls (snd (handle_request cfg e m u s)))
            = nat (max_retries cfg) + 1"
    unfolding h by simp
qed

theorem retry_budget_shared_witness:
  "calls (snd (handle_request \<lparr>max_retries = 2, min_backoff = 1, max_backoff = 60, jitter = False\<rparr>
       (scripted [Response (plain 429), Raises ''timeout''] (Response (plain 429)))
       ''GET'' ''https://api.mimecast.com/api/v2/test'' world0)) = 3
   \<and> throttled_responses (scripted [Response (plain 429), Raises ''timeout''] (Response (plain 429)))
       ''GET'' ''https://api.mimecast.com/api/v2/test'' 0 3
     + transient_failures (scripted [Response (plain 429), Raises ''timeout''] (Response (plain 429)))
       ''GET'' ''https://api.mimecast.com/api/v2/test'' 0 3 = 3"
proof -
  let ?cfg = "\<lparr>max_retries = 2, min_backoff = 1, max_backoff = 60, jitter = False\<rparr>"
  let ?e = "scripted [Response (plain 429), Raises ''timeout''] (Response (plain 429))"
  let ?u = "''https://api.mimecast.com/api/v2/test''"
  have r: "fst (handle_request ?cfg ?e ''GET'' ?u world0)
           = Inl (RateLimitExceeded (Exceeded_after_retries ''v2/test'' 2))"
    by (simp add: run_defs)
  have z: "calls world0 = 0" by (simp add: world0_def)
  have le: "0 \<le> max_retries ?cfg" by simp
  let ?s' = "snd (handle_request ?cfg ?e ''GET'' ?u world0)"
  from retry_budget_shared [of ?cfg ?e "''GET''" ?u world0] le r
  have t: "calls ?s' = calls world0 + nat (max_retries ?cfg) + 1
           \<and> throttled_responses ?e ''GET'' ?u (calls world0) (calls ?s')
             + transient_failures ?e ''GET'' ?u (calls world0) (calls ?s')
             = nat (max_retries ?cfg) + 1"
    by blast
  from t have c: "calls ?s' = 3" by (simp add: z)
  from t have "throttled_responses ?e ''GET'' ?u (calls world0) (calls ?s')
             + transient_failures ?e ''GET'' ?u (calls world0) (calls ?s')
             = nat (max_retries ?cfg) + 1"
    by (rule conjunct2)
  then have "throttled_responses ?e ''GET'' ?u 0 3 + transient_failures ?e ''GET'' ?u 0 3
             = nat (max_retries ?cfg) + 1"
    by (simp only: c z)
  then have "throttled_responses ?e ''GET'' ?u 0 3 + transient_failures ?e ''GET'' ?u 0 3 = 3"
    by simp
  with c show ?thesis by blast
qed

text \<open>
  C5 says that with \<open>maxRetries = 2\<close> and a transport that answers 429 to every call there
  are exactly 3 transport calls and then a \<^verbatim>\<open>RateLimitExceeded\<close>. Not for every handler:
  with \<open>min_backoff = -1\<close>, which the constructor accepts, the backoff after the first 429 is
  \<open>-2\<close>, and \<^verbatim>\<open>time.sleep\<close> raises \<^verbatim>\<open>ValueError\<close> after one call.
\<close>

theorem negative_backoff_ends_early:
  "handle_request \<lparr>max_retries = 2, min_backoff = - 1, max_backoff = 60, jitter = False\<rparr>
     (scripted [] (Response (plain 429)))
     ''GET'' ''https://api.mimecast.com/api/v2/test'' world0
   = (Inl ValueError, world0\<lparr>calls := 1\<rparr>)"
  by (simp add: run_defs)

lemma always_throttled:
  assumes le: "0 \<le> max_retries cfg"
    and all: "\<forall>i. \<exists>resp. request e m u i = Response resp \<and> status_code resp = 429"
  shows "((fst (handle_loop cfg e m u ep 0 s)
            = Inl (RateLimitExceeded (Exceeded_after_retries ep (max_retries cfg)))
           \<and> calls (snd (handle_loop cfg e m u ep 0 s)) = calls s + nat (max_retries cfg) + 1)
          \<or> ((fst (handle_loop cfg e m u ep 0 s) = Inl ValueError
               \<or> fst (handle_loop cfg e m u ep 0 s) = Inl OverflowError
               \<or> fst (handle_loop cfg e m u ep 0 s) = Inl OSError)
              \<and> calls (snd (handle_loop cfg e m u ep 0 s)) \<le> calls s + nat (max_retries cfg) + 1))
       \<and> (calm_env cfg e m u start \<and> calm_inv cfg start ep 0 s \<longrightarrow>
            fst (handle_loop cfg e m u ep 0 s)
              = Inl (RateLimitExceeded (Exceeded_after_retries ep (max_retries cfg)))
            \<and> calls (snd (handle_loop cfg e m u ep 0 s)) = calls s + nat (max_retries cfg) + 1)"
proof -
  let ?r = "fst (handle_loop cfg e m u ep 0 s)"
  have no_return: "\<not> (\<exists>resp i. ?r = Inr resp
            \<and> request e m u i = Response resp \<and> status_code resp \<noteq> 429)"
    using all by (metis outcome.inject(1))
  have no_raise: "\<not> (\<exists>msg i. ?r = Inl (RequestException msg) \<and> request e m u i = Raises msg)"
    using all by (metis outcome.distinct(1))
  have no_crash: "\<not> (\<exists>name i. ?r = Inl (OtherException name) \<and> request e m u i = Crashes name)"
    using all by (metis outcome.distinct(3))
  have cnt: "?r = Inl (RateLimitExceeded (Exceeded_after_retries ep (max_retries cfg))) \<Longrightarrow>
             calls (snd (handle_loop cfg e m u ep 0 s)) = calls s + nat (max_retries cfg) + 1"
    using loop_failure_count [OF le, of e m u ep s] by auto
  have bound: "calls (snd (handle_loop cfg e m u ep 0 s)) \<le> calls s + nat (max_retries cfg) + 1"
    using loop_calls_bound [OF le, of e m u ep s] by simp
  from loop_outcomes [OF le, of e m u ep s] no_return no_raise no_crash
  have "?r = Inl (RateLimitExceeded (Exceeded_after_retries ep (max_retries cfg)))
        \<or> ?r = Inl ValueError \<or> ?r = Inl OverflowError \<or> ?r = Inl OSError"
    by blast
  with cnt bound have first: "(?r = Inl (RateLimitExceeded (Exceeded_after_retries ep (max_retries cfg)))
           \<and> calls (snd (handle_loop cfg e m u ep 0 s)) = calls s + nat (max_retries cfg) + 1)
          \<or> ((?r = Inl ValueError \<or> ?r = Inl OverflowError \<or> ?r = Inl OSError)
              \<and> calls (snd (handle_loop cfg e m u ep 0 s)) \<le> calls s + nat (max_retries cfg) + 1)"
    by blast
  have second: "calm_env cfg e m u start \<and> calm_inv cfg start ep 0 s \<longrightarrow>
            ?r = Inl (RateLimitExceeded (Exceeded_after_retries ep (max_retries cfg)))
            \<and> calls (snd (handle_loop cfg e m u ep 0 s)) = calls s + nat (max_retries cfg) + 1"
  proof
    assume c: "calm_env cfg e m u start \<and> calm_inv cfg start ep 0 s"
    from loop_calm [of cfg e m u start ep 0 s] c le no_return no_raise no_crash
    have "?r = Inl (RateLimitExceeded (Exceeded_after_retries ep (max_retries cfg)))"
      by blast
    with cnt show "?r = Inl (RateLimitExceeded (Exceeded_after_retries ep (max_retries cfg)))
            \<and> calls (snd (handle_loop cfg e m u ep 0 s)) = calls s + nat (max_retries cfg) + 1"
      by blast
  qed
  from first second show ?thesis by blast
qed

text \<open>
  C5, as the code has it. With \<open>maxRetries = 2\<close> and a transport that answers 429 to every
  call, \<^verbatim>\<open>handle_request\<close> either makes exactly 3 transport calls and then raises the
  \<^verbatim>\<open>RateLimitExceeded\<close> of the loop, or it is ended, after 3 calls at most, by a
  \<^verbatim>\<open>ValueError\<close>, \<^verbatim>\<open>OverflowError\<close> or \<^verbatim>\<open>OSError\<close> that leaves \<^verbatim>\<open>time.sleep\<close> or the header
  update. In a calm call (\<open>calm\<close>: non-negative backoff bounds of moderate size, reset times
  and the monotonic clock within \<open>10 ^ 9\<close> seconds, headers that the update accepts) it is
  the first: exactly 3 calls, then \<^verbatim>\<open>RateLimitExceeded\<close>.
\<close>

theorem always_throttled_exhausts_budget:
  "max_retries cfg = 2
   \<and> (\<forall>i. \<exists>resp. request e m u i = Response resp \<and> status_code resp = 429) \<longrightarrow>
   ((fst (handle_request cfg e m u s)
       = Inl (RateLimitExceeded (Exceeded_after_retries (get_endpoint_key u) 2))
     \<and> calls (snd (handle_request cfg e m u s)) = calls s + 3)
    \<or> ((fst (handle_request cfg e m u s) = Inl ValueError
         \<or> fst (handle_request cfg e m u s) = Inl OverflowError
         \<or> fst (handle_request cfg e m u s) = Inl OSError)
        \<and> calls (snd (handle_request cfg e m u s)) \<le> calls s + 3))
   \<and> (calm cfg e m u s \<longrightarrow>
        fst (handle_request cfg e m u s)
          = Inl (RateLimitExceeded (Exceeded_after_retries (get_endpoint_key u) 2))
        \<and> calls (snd (handle_request cfg e m u s)) = calls s + 3)"
proof
  assume a: "max_retries cfg = 2
   \<and> (\<forall>i. \<exists>resp. request e m u i = Response resp \<and> status_code resp = 429)"
  then have le: "0 \<le> max_retries cfg" and m: "max_retries cfg = 2"
    and all: "\<forall>i. \<exists>resp. request e m u i = Response resp \<and> status_code resp = 429"
    by simp_all
  have h: "handle_request cfg e m u s = handle_loop cfg e m u (get_endpoint_key u) 0 s"
    by (simp add: handle_request_def)
  have n: "nat (max_retries cfg) + 1 = 3" using m by simp
  note t = always_throttled [OF le all, of "get_endpoint_key u" s "now s"]
  have c: "calm cfg e m u s \<Longrightarrow>
           calm_env cfg e m u (now s) \<and> calm_inv cfg (now s) (get_endpoint_key u) 0 s"
    using calm_start by blast
  from t c show "((fst (handle_request cfg e m u s)
       = Inl (RateLimitExceeded (Exceeded_after_retries (get_endpoint_key u) 2))
     \<and> calls (snd (handle_request cfg e m u s)) = calls s + 3)
    \<or> ((fst (handle_request cfg e m u s) = Inl ValueError
         \<or> fst (handle_request cfg e m u s) = Inl OverflowError
         \<or> fst (handle_request cfg e m u s) = Inl OSError)
        \<and> calls (snd (handle_request cfg e m u s)) \<le> calls s + 3))
   \<and> (calm cfg e m u s \<longrightarrow>
        fst (handle_request cfg e m u s)
          = Inl (RateLimitExceeded (Exceeded_after_retries (get_endpoint_key u) 2))
        \<and> calls (snd (handle_request cfg e m u s)) = calls s + 3)"
    unfolding h m [symmetric] using n by (auto simp: add.assoc)
qed

theorem always_throttled_exhausts_budget_witness:
  "fst (handle_request \<lparr>max_retries = 2, min_backoff = 1, max_backoff = 60, jitter = True\<rparr>
          (scripted [] (Response throttled60)) ''GET'' ''https://api.mimecast.com/api/v2/test'' world0)
     = Inl (RateLimitExceeded (Exceeded_after_retries ''v2/test'' 2))
   \<and> calls (snd (handle_request \<lparr>max_retries = 2, min_backoff = 1, max_backoff = 60, jitter = True\<rparr>
          (scripted [] (Response throttled60)) ''GET'' ''https://api.mimecast.com/api/v2/test'' world0))
     = 3"
proof -
  let ?cfg = "\<lparr>max_retries = 2, min_backoff = 1, max_backoff = 60, jitter = True\<rparr>"
  let ?e = "scripted [] (Response throttled60)"
  let ?u = "''https://api.mimecast.com/api/v2/test''"
  have h: "max_retries ?cfg = 2
           \<and> (\<forall>i. \<exists>resp. request ?e ''GET'' ?u i = Response resp \<and> status_code resp = 429)"
    by (simp add: scripted_def throttled60_def)
  have c: "calm ?cfg ?e ''GET'' ?u world0"
    by (rule calm_scripted [OF _ _ _ _ throttled60_within]) simp_all
  have k: "get_endpoint_key ?u = ''v2/test''"
    by (simp add: get_endpoint_key_def Spec2Isabelle.split_def rstrip_def last_two_def)
  have z: "calls world0 = 0" by (simp add: world0_def)
  from always_throttled_exhausts_budget [of ?cfg ?e "''GET''" ?u world0] h c
  have "fst (handle_request ?cfg ?e ''GET'' ?u world0)
          = Inl (RateLimitExceeded (Exceeded_after_retries (get_endpoint_key ?u) 2))
        \<and> calls (snd (handle_request ?cfg ?e ''GET'' ?u world0)) = calls world0 + 3"
    by blast
  then show ?thesis unfolding k z by simp
qed

subsection \<open>Responses other than 429\<close>




subsection \<open>The backoff of the first retry\<close>

text \<open>
  C3 says that after 429, 429, 200, with \<open>minBackoff = 1.0\<close> and without jitter, the two
  backoff sleeps are 1.0 and 2.0, the first retry being attempt number 0. The code
  increments \<^verbatim>\<open>retry_count\<close> before it calls \<^verbatim>\<open>_calculate_backoff(retry_count)\<close>, so the
  first backoff is computed for attempt 1: the sleeps are 2.0 and 4.0.
\<close>

theorem first_backoff_is_doubled:
  "handle_request \<lparr>max_retries = 3, min_backoff = 1, max_backoff = 60, jitter = False\<rparr>
     (scripted [Response (plain 429), Response (plain 429)] (Response (plain 200)))
     ''GET'' ''https://api.mimecast.com/api/v2/test'' world0
   = (Inr (plain 200), world0\<lparr>now := 6, calls := 3, sleeps := [2, 4]\<rparr>)"
  by (simp add: run_defs)

subsection \<open>How the loop ends\<close>

text \<open>
  C10 says that for \<open>max_retries \<ge> 0\<close> every termination of \<^verbatim>\<open>handle_request\<close> is a returned
  response, a \<^verbatim>\<open>RateLimitExceeded\<close> raised inside the loop, or a re-raised transport
  exception. There are more: with \<open>min_backoff = -1\<close>, which the constructor accepts, the
  backoff after the first 429 is \<open>-2\<close> and \<^verbatim>\<open>time.sleep\<close> raises \<^verbatim>\<open>ValueError\<close>, which leaves
  \<^verbatim>\<open>handle_request\<close>.
\<close>

theorem negative_backoff_counterexample:
  "handle_request \<lparr>max_retries = 1, min_backoff = - 1, max_backoff = 60, jitter = False\<rparr>
     (scripted [] (Response (plain 429)))
     ''GET'' ''https://api.mimecast.com/api/v2/test'' world0
   = (Inl ValueError, world0\<lparr>calls := 1\<rparr>)"
  by (simp add: run_defs)

text \<open>
  C10, as the code has it. For every \<open>max_retries \<ge> 0\<close> the \<^verbatim>\<open>raise\<close> after the loop is
  unreachable: no run of \<^verbatim>\<open>handle_request\<close> ends with its message. Every run ends inside
  the loop body: with a returned response that the transport gave and that is not a 429,
  with the \<^verbatim>\<open>RateLimitExceeded\<close> of the loop, with a \<^verbatim>\<open>RequestException\<close> that the transport
  raised, or with an exception that passes through uncaught, which is an exception of
  another class that the transport raised, or a \<^verbatim>\<open>ValueError\<close>, \<^verbatim>\<open>OverflowError\<close> or
  \<^verbatim>\<open>OSError\<close> (of \<^verbatim>\<open>time.sleep\<close>, of the backoff computation or of the header update). In
  a calm call the last three do not occur. For \<open>max_retries < 0\<close> the loop body never runs:
  \<^verbatim>\<open>handle_request\<close> raises the \<^verbatim>\<open>RateLimitExceeded\<close> after the loop and leaves the state
  as it was, so without a transport call.
\<close>

theorem final_raise_unreachable:
  "(0 \<le> max_retries cfg \<longrightarrow>
      (\<forall>n k. fst (handle_request cfg e m u s)
               \<noteq> Inl (RateLimitExceeded (Max_retries_exceeded n k)))
      \<and> ((\<exists>resp i. fst (handle_request cfg e m u s) = Inr resp
               \<and> request e m u i = Response resp \<and> status_code resp \<noteq> 429)
          \<or> fst (handle_request cfg e m u s)
              = Inl (RateLimitExceeded
                       (Exceeded_after_retries (get_endpoint_key u) (max_retries cfg)))
          \<or> (\<exists>msg i. fst (handle_request cfg e m u s) = Inl (RequestException msg)
               \<and> request e m u i = Raises msg)
          \<or> (\<exists>name i. fst (handle_request cfg e m u s) = Inl (OtherException name)
               \<and> request e m u i = Crashes name)
          \<or> fst (handle_request cfg e m u s) = Inl ValueError
          \<or> fst (handle_request cfg e m u s) = Inl OverflowError
          \<or> fst (handle_request cfg e m u s) = Inl OSError)
      \<and> (calm cfg e m u s \<longrightarrow>
          (\<exists>resp i. fst (handle_request cfg e m u s) = Inr resp
               \<and> request e m u i = Response resp \<and> status_code resp \<noteq> 429)
          \<or> fst (handle_request cfg e m u s)
              = Inl (RateLimitExceeded
                       (Exceeded_after_retries (get_endpoint_key u) (max_retries cfg)))
          \<or> (\<exists>msg i. fst (handle_request cfg e m u s) = Inl (RequestException msg)
               \<and> request e m u i = Raises msg)
          \<or> (\<exists>name i. fst (handle_request cfg e m u s) = Inl (OtherException name)
               \<and> request e m u i = Crashes name)))
   \<and> (max_retries cfg < 0 \<longrightarrow>
        handle_request cfg e m u s
          = (Inl (RateLimitExceeded
                    (Max_retries_exceeded (max_retries cfg) (get_endpoint_key u))), s))"
proof -
  have h: "handle_request cfg e m u s = handle_loop cfg e m u (get_endpoint_key u) 0 s"
    by (simp add: handle_request_def)
  have a: "0 \<le> max_retries cfg \<Longrightarrow>
           \<forall>n k. fst (handle_request cfg e m u s)
               \<noteq> Inl (RateLimitExceeded (Max_retries_exceeded n k))"
    unfolding h using loop_never_final [of 0 cfg e m u "get_endpoint_key u" s] by blast
  have b: "0 \<le> max_retries cfg \<Longrightarrow>
          (\<exists>resp i. fst (handle_request cfg e m u s) = Inr resp
               \<and> request e m u i = Response resp \<and> status_code resp \<noteq> 429)
          \<or> fst (handle_request cfg e m u s)
              = Inl (RateLimitExceeded
                       (Exceeded_after_retries (get_endpoint_key u) (max_retries cfg)))
          \<or> (\<exists>msg i. fst (handle_request cfg e m u s) = Inl (RequestException msg)
               \<and> request e m u i = Raises msg)
          \<or> (\<exists>name i. fst (handle_request cfg e m u s) = Inl (OtherException name)
               \<and> request e m u i = Crashes name)
          \<or> fst (handle_request cfg e m u s) = Inl ValueError
          \<or> fst (handle_request cfg e m u s) = Inl OverflowError
          \<or> fst (handle_request cfg e m u s) = Inl OSError"
    unfolding h by (rule loop_outcomes)
  have c: "0 \<le> max_retries cfg \<Longrightarrow> calm cfg e m u s \<Longrightarrow>
          (\<exists>resp i. fst (handle_request cfg e m u s) = Inr resp
               \<and> request e m u i = Response resp \<and> status_code resp \<noteq> 429)
          \<or> fst (handle_request cfg e m u s)
              = Inl (RateLimitExceeded
                       (Exceeded_after_retries (get_endpoint_key u) (max_retries cfg)))
          \<or> (\<exists>msg i. fst (handle_request cfg e m u s) = Inl (RequestException msg)
               \<and> request e m u i = Raises msg)
          \<or> (\<exists>name i. fst (handle_request cfg e m u s) = Inl (OtherException name)
               \<and> request e m u i = Crashes name)"
    unfolding h using loop_calm [OF calm_start, of cfg e m u s] by blast
  have d: "max_retries cfg < 0 \<Longrightarrow>
        handle_request cfg e m u s
          = (Inl (RateLimitExceeded
                    (Max_retries_exceeded (max_retries cfg) (get_endpoint_key u))), s)"
    unfolding h by (rule loop_negative)
  from a b c d show ?thesis by blast
qed

theorem final_raise_unreachable_witness:
  "fst (handle_request \<lparr>max_retries = 0, min_backoff = 1, max_backoff = 60, jitter = False\<rparr>
          (scripted [] (Response (plain 429))) ''GET'' ''https://api.mimecast.com/api/v2/test'' world0)
     = Inl (RateLimitExceeded (Exceeded_after_retries ''v2/test'' 0))
   \<and> handle_request \<lparr>max_retries = - 1, min_backoff = 1, max_backoff = 60, jitter = False\<rparr>
          (scripted [] (Response (plain 429))) ''GET'' ''https://api.mimecast.com/api/v2/test'' world0
     = (Inl (RateLimitExceeded (Max_retries_exceeded (- 1) ''v2/test'')), world0)"
proof -
  let ?c0 = "\<lparr>max_retries = 0, min_backoff = 1, max_backoff = 60, jitter = False\<rparr>"
  let ?c1 = "\<lparr>max_retries = - 1, min_backoff = 1, max_backoff = 60, jitter = False\<rparr>"
  let ?e = "scripted [] (Response (plain 429))"
  let ?u = "''https://api.mimecast.com/api/v2/test''"
  have k: "get_endpoint_key ?u = ''v2/test''"
    by (simp add: get_endpoint_key_def Spec2Isabelle.split_def rstrip_def last_two_def)
  have le: "0 \<le> max_retries ?c0" by simp
  have c: "calm ?c0 ?e ''GET'' ?u world0"
    by (rule calm_scripted [OF _ _ _ _ plain_within]) simp_all
  have all: "\<forall>i. request ?e ''GET'' ?u i = Response (plain 429)"
    by (simp add: scripted_def)
  from final_raise_unreachable [of ?c0 ?e "''GET''" ?u world0] le c
  have "(\<exists>resp i. fst (handle_request ?c0 ?e ''GET'' ?u world0) = Inr resp
               \<and> request ?e ''GET'' ?u i = Response resp \<and> status_code resp \<noteq> 429)
          \<or> fst (handle_request ?c0 ?e ''GET'' ?u world0)
              = Inl (RateLimitExceeded (Exceeded_after_retries (get_endpoint_key ?u) (max_retries ?c0)))
          \<or> (\<exists>msg i. fst (handle_request ?c0 ?e ''GET'' ?u world0) = Inl (RequestException msg)
               \<and> request ?e ''GET'' ?u i = Raises msg)
          \<or> (\<exists>name i. fst (handle_request ?c0 ?e ''GET'' ?u world0) = Inl (OtherException name)
               \<and> request ?e ''GET'' ?u i = Crashes name)"
    by blast
  moreover have "\<not> (\<exists>resp i. request ?e ''GET'' ?u i = Response resp \<and> status_code resp \<noteq> 429)"
    using all by (simp add: plain_def)
  moreover have "\<not> (\<exists>msg i. request ?e ''GET'' ?u i = Raises msg)"
    using all by simp
  moreover have "\<not> (\<exists>name i. request ?e ''GET'' ?u i = Crashes name)"
    using all by simp
  ultimately have a: "fst (handle_request ?c0 ?e ''GET'' ?u world0)
              = Inl (RateLimitExceeded (Exceeded_after_retries ''v2/test'' 0))"
    unfolding k by auto
  have "max_retries ?c1 < 0" by simp
  with final_raise_unreachable [of ?c1 ?e "''GET''" ?u world0]
  have "handle_request ?c1 ?e ''GET'' ?u world0
          = (Inl (RateLimitExceeded (Max_retries_exceeded (max_retries ?c1) (get_endpoint_key ?u))), world0)"
    by blast
  then have b: "handle_request ?c1 ?e ''GET'' ?u world0
          = (Inl (RateLimitExceeded (Max_retries_exceeded (- 1) ''v2/test'')), world0)"
    unfolding k by simp
  from a b show ?thesis by blast
qed

end
